theory Spec2Isabelle
  imports Complex_Main
begin

section \<open>Errors and shapes\<close>

text \<open>
  The network of \<^verbatim>\<open>guided_diffusion/unet.py\<close> is embedded at the level of tensor
  shapes: a tensor is the list of its dimension sizes, a module is the record of what its
  constructor stores, and a forward call maps shapes to shapes or to the exception it
  raises. Sizes and channel counts are natural numbers (the tensor library rejects negative
  sizes); the two arguments with the sentinel \<open>-1\<close> and the head counts derived from them are
  integers, with Python's floor division and modulo, which are \<open>div\<close> and \<open>mod\<close> on \<open>int\<close>
  for a non-zero divisor.
\<close>

datatype error =
    AssertionError
  | NotImplementedError
  | AttributeError
  | IndexError
  | ZeroDivisionError
  | ValueError
  | RuntimeError

type_synonym shape = "nat list"

definition ebind :: "error + 'a \<Rightarrow> ('a \<Rightarrow> error + 'b) \<Rightarrow> error + 'b" where
  "ebind m f = (case m of Inl e \<Rightarrow> Inl e | Inr v \<Rightarrow> f v)"

text \<open>Python's \<^verbatim>\<open>a or b\<close> on an optional count: \<open>None\<close> and \<open>0\<close> are both falsy.\<close>

definition or_default :: "nat option \<Rightarrow> nat \<Rightarrow> nat" where
  "or_default a b = (case a of None \<Rightarrow> b | Some v \<Rightarrow> if v = 0 then b else v)"

section \<open>The tensor library at the level of shapes\<close>

text \<open>
  Modelled from the spec: \<^verbatim>\<open>conv_nd\<close>, \<^verbatim>\<open>avg_pool_nd\<close>, \<^verbatim>\<open>linear\<close>, \<^verbatim>\<open>normalization\<close>,
  \<^verbatim>\<open>zero_module\<close>, \<^verbatim>\<open>timestep_embedding\<close> and \<^verbatim>\<open>checkpoint\<close> live in
  \<^verbatim>\<open>guided_diffusion/nn.py\<close>, which is not among the sources, and wrap the tensor library.
  The spec fixes their shape behaviour (sections 4.1 to 4.4 and 6): a convolution maps
  \<open>in\<close> channels to \<open>out\<close> channels and each spatial size \<open>h\<close> to
  \<open>(h + 2 * padding - kernel) div stride + 1\<close>; pooling with kernel and stride \<open>k\<close> maps
  \<open>h\<close> to \<open>(h - k) div k + 1\<close>; normalisation, the nonlinearity and dropout keep the
  shape; a linear layer replaces the last dimension; the spatial dimensionality is one of
  1, 2, 3; checkpointing does not change the function computed. Which channel counts the
  constructor of the normalisation layer accepts is not fixed by the spec or the sources:
  it is the parameter \<open>norm_ok\<close> of every constructor below.
\<close>

record conv =
  conv_dims :: nat
  conv_in :: nat
  conv_out :: nat
  conv_kernel :: nat
  conv_stride :: "nat list"
  conv_padding :: nat
  conv_zeroed :: bool

definition conv_nd :: "nat \<Rightarrow> nat \<Rightarrow> nat \<Rightarrow> nat \<Rightarrow> nat list \<Rightarrow> nat \<Rightarrow> error + conv" where
  "conv_nd dims cin cout k stride padding =
     (if dims = 1 \<or> dims = 2 \<or> dims = 3
      then Inr \<lparr>conv_dims = dims, conv_in = cin, conv_out = cout, conv_kernel = k,
                conv_stride = stride, conv_padding = padding, conv_zeroed = False\<rparr>
      else Inl ValueError)"

definition zero_module :: "conv \<Rightarrow> conv" where
  "zero_module c = c\<lparr>conv_zeroed := True\<rparr>"

definition conv_out_size :: "nat \<Rightarrow> nat \<Rightarrow> nat \<Rightarrow> nat \<Rightarrow> nat option" where
  "conv_out_size k p s h =
     (if h + 2 * p < k \<or> s = 0 then None else Some ((h + 2 * p - k) div s + 1))"

fun conv_spatial :: "nat \<Rightarrow> nat \<Rightarrow> nat list \<Rightarrow> nat list \<Rightarrow> nat list option" where
  "conv_spatial k p [] [] = Some []"
| "conv_spatial k p (s # ss) (h # hs) =
     (case conv_out_size k p s h of
        None \<Rightarrow> None
      | Some h' \<Rightarrow> map_option ((#) h') (conv_spatial k p ss hs))"
| "conv_spatial k p _ _ = None"

text \<open>A convolution takes a batched input \<open>N # C # spatial\<close> or an unbatched \<open>C # spatial\<close>.\<close>

definition conv_forward :: "conv \<Rightarrow> shape \<Rightarrow> error + shape" where
  "conv_forward c x =
     (if length x = conv_dims c + 2 then
        (if x ! 1 \<noteq> conv_in c then Inl RuntimeError
         else case conv_spatial (conv_kernel c) (conv_padding c) (conv_stride c) (drop 2 x) of
                None \<Rightarrow> Inl RuntimeError
              | Some sp \<Rightarrow> Inr (x ! 0 # conv_out c # sp))
      else if length x = conv_dims c + 1 then
        (if x ! 0 \<noteq> conv_in c then Inl RuntimeError
         else case conv_spatial (conv_kernel c) (conv_padding c) (conv_stride c) (drop 1 x) of
                None \<Rightarrow> Inl RuntimeError
              | Some sp \<Rightarrow> Inr (conv_out c # sp))
      else Inl RuntimeError)"

record avg_pool =
  pool_dims :: nat
  pool_kernel :: "nat list"

definition avg_pool_nd :: "nat \<Rightarrow> nat list \<Rightarrow> error + avg_pool" where
  "avg_pool_nd dims k =
     (if dims = 1 \<or> dims = 2 \<or> dims = 3
      then Inr \<lparr>pool_dims = dims, pool_kernel = k\<rparr>
      else Inl ValueError)"

fun pool_spatial :: "nat list \<Rightarrow> nat list \<Rightarrow> nat list option" where
  "pool_spatial [] [] = Some []"
| "pool_spatial (k # ks) (h # hs) =
     (if h < k \<or> k = 0 then None
      else map_option ((#) ((h - k) div k + 1)) (pool_spatial ks hs))"
| "pool_spatial _ _ = None"

definition avg_pool_forward :: "avg_pool \<Rightarrow> shape \<Rightarrow> error + shape" where
  "avg_pool_forward p x =
     (if length x = pool_dims p + 2 then
        (case pool_spatial (pool_kernel p) (drop 2 x) of
           None \<Rightarrow> Inl RuntimeError
         | Some sp \<Rightarrow> Inr (x ! 0 # x ! 1 # sp))
      else if length x = pool_dims p + 1 then
        (case pool_spatial (pool_kernel p) (drop 1 x) of
           None \<Rightarrow> Inl RuntimeError
         | Some sp \<Rightarrow> Inr (x ! 0 # sp))
      else Inl RuntimeError)"

text \<open>\<^verbatim>\<open>normalization(channels)\<close>: the module is determined by its channel count.\<close>

definition normalization :: "(nat \<Rightarrow> bool) \<Rightarrow> nat \<Rightarrow> error + nat" where
  "normalization norm_ok channels = (if norm_ok channels then Inr channels else Inl ValueError)"

definition normalization_forward :: "nat \<Rightarrow> shape \<Rightarrow> error + shape" where
  "normalization_forward channels x =
     (if 2 \<le> length x \<and> x ! 1 = channels then Inr x else Inl RuntimeError)"

record linear_layer =
  lin_in :: nat
  lin_out :: nat

definition linear_nn :: "nat \<Rightarrow> nat \<Rightarrow> linear_layer" where
  "linear_nn i out = \<lparr>lin_in = i, lin_out = out\<rparr>"

definition linear_forward :: "linear_layer \<Rightarrow> shape \<Rightarrow> error + shape" where
  "linear_forward l x =
     (if x \<noteq> [] \<and> last x = lin_in l then Inr (butlast x @ [lin_out l]) else Inl RuntimeError)"

text \<open>
  \<^verbatim>\<open>timestep_embedding(timesteps, dim)\<close> indexes \<^verbatim>\<open>timesteps[:, None]\<close>, so it needs a
  one-dimensional batch, and returns \<open>[N, dim]\<close>.
\<close>

definition timestep_embedding :: "shape \<Rightarrow> nat \<Rightarrow> error + shape" where
  "timestep_embedding timesteps width =
     (case timesteps of [n] \<Rightarrow> Inr [n, width] | _ \<Rightarrow> Inl IndexError)"

text \<open>Broadcasting of an elementwise operation: shapes are aligned at their last dimension.\<close>

fun broadcast_rev :: "nat list \<Rightarrow> nat list \<Rightarrow> nat list option" where
  "broadcast_rev [] ys = Some ys"
| "broadcast_rev xs [] = Some xs"
| "broadcast_rev (x # xs) (y # ys) =
     (if x = y \<or> y = 1 then map_option ((#) x) (broadcast_rev xs ys)
      else if x = 1 then map_option ((#) y) (broadcast_rev xs ys)
      else None)"

definition tensor_add :: "shape \<Rightarrow> shape \<Rightarrow> error + shape" where
  "tensor_add a b =
     (case broadcast_rev (rev a) (rev b) of None \<Rightarrow> Inl RuntimeError | Some r \<Rightarrow> Inr (rev r))"

text \<open>\<^verbatim>\<open>th.cat(ts, dim=1)\<close>: all other dimensions must agree.\<close>

fun cat1 :: "shape list \<Rightarrow> error + shape" where
  "cat1 [] = Inl RuntimeError"
| "cat1 [t] = (if 2 \<le> length t then Inr t else Inl IndexError)"
| "cat1 (t # ts) =
     ebind (cat1 ts) (\<lambda>r.
       if 2 \<le> length t \<and> length t = length r \<and> t ! 0 = r ! 0 \<and> drop 2 t = drop 2 r
       then Inr (t ! 0 # (t ! 1 + r ! 1) # drop 2 t)
       else Inl RuntimeError)"

text \<open>
  \<^verbatim>\<open>th.chunk(t, 2, dim=1)\<close> unpacked into two names: pieces of size \<open>\<lceil>c / 2\<rceil>\<close>; a
  dimension of size 1 gives a single piece and the unpacking fails.
\<close>

definition chunk2 :: "shape \<Rightarrow> error + (shape \<times> shape)" where
  "chunk2 t =
     (if length t < 2 then Inl IndexError
      else if t ! 1 = 1 then Inl ValueError
      else Inr (t[1 := (t ! 1 + 1) div 2], t[1 := t ! 1 - (t ! 1 + 1) div 2]))"

section \<open>Resampling units\<close>

record upsample =
  up_channels :: nat
  up_out_channels :: nat
  up_use_conv :: bool
  up_dims :: nat
  up_conv :: "conv option"

definition Upsample_init :: "nat \<Rightarrow> bool \<Rightarrow> nat \<Rightarrow> nat option \<Rightarrow> error + upsample" where
  "Upsample_init channels use_conv dims out_channels =
     (let oc = or_default out_channels channels in
      if use_conv then
        ebind (conv_nd dims channels oc 3 (replicate dims 1) 1) (\<lambda>c.
          Inr \<lparr>up_channels = channels, up_out_channels = oc, up_use_conv = use_conv,
               up_dims = dims, up_conv = Some c\<rparr>)
      else Inr \<lparr>up_channels = channels, up_out_channels = oc, up_use_conv = use_conv,
                up_dims = dims, up_conv = None\<rparr>)"

text \<open>
  \<^verbatim>\<open>F.interpolate\<close> with \<^verbatim>\<open>scale_factor=2\<close> doubles every spatial size of an input of
  rank 3, 4 or 5; the three-dimensional branch reads \<^verbatim>\<open>x.shape[2..4]\<close> and doubles the
  inner two.
\<close>

definition interpolate2 :: "nat \<Rightarrow> shape \<Rightarrow> error + shape" where
  "interpolate2 dims x =
     (if dims = 3 then
        (if length x < 5 then Inl IndexError
         else if length x = 5 then Inr [x ! 0, x ! 1, x ! 2, x ! 3 * 2, x ! 4 * 2]
         else Inl RuntimeError)
      else if 3 \<le> length x \<and> length x \<le> 5 then Inr (take 2 x @ map (\<lambda>h. h * 2) (drop 2 x))
      else Inl RuntimeError)"

definition Upsample_forward :: "upsample \<Rightarrow> shape \<Rightarrow> error + shape" where
  "Upsample_forward u x =
     (if length x < 2 then Inl IndexError
      else if x ! 1 \<noteq> up_channels u then Inl AssertionError
      else ebind (interpolate2 (up_dims u) x) (\<lambda>x'.
        case up_conv u of None \<Rightarrow> Inr x' | Some c \<Rightarrow> conv_forward c x'))"

datatype down_op = DownConv conv | DownPool avg_pool

record downsample =
  down_channels :: nat
  down_out_channels :: nat
  down_use_conv :: bool
  down_dims :: nat
  down_op :: down_op

definition down_stride :: "nat \<Rightarrow> nat list" where
  "down_stride dims = (if dims \<noteq> 3 then replicate dims 2 else [1, 2, 2])"

definition Downsample_init :: "nat \<Rightarrow> bool \<Rightarrow> nat \<Rightarrow> nat option \<Rightarrow> error + downsample" where
  "Downsample_init channels use_conv dims out_channels =
     (let oc = or_default out_channels channels; stride = down_stride dims in
      if use_conv then
        ebind (conv_nd dims channels oc 3 stride 1) (\<lambda>c.
          Inr \<lparr>down_channels = channels, down_out_channels = oc, down_use_conv = use_conv,
               down_dims = dims, down_op = DownConv c\<rparr>)
      else if channels \<noteq> oc then Inl AssertionError
      else ebind (avg_pool_nd dims stride) (\<lambda>p.
          Inr \<lparr>down_channels = channels, down_out_channels = oc, down_use_conv = use_conv,
               down_dims = dims, down_op = DownPool p\<rparr>))"

definition Downsample_forward :: "downsample \<Rightarrow> shape \<Rightarrow> error + shape" where
  "Downsample_forward d x =
     (if length x < 2 then Inl IndexError
      else if x ! 1 \<noteq> down_channels d then Inl AssertionError
      else case down_op d of
             DownConv c \<Rightarrow> conv_forward c x
           | DownPool p \<Rightarrow> avg_pool_forward p x)"

section \<open>The residual block\<close>

datatype updown = UpdUp upsample | UpdDown downsample | UpdIdentity

datatype skip = SkipIdentity | SkipConv conv

record resblock =
  rb_channels :: nat
  rb_emb_channels :: nat
  rb_out_channels :: nat
  rb_use_conv :: bool
  rb_use_checkpoint :: bool
  rb_use_scale_shift_norm :: bool
  rb_in_norm :: nat
  rb_in_conv :: conv
  rb_updown :: bool
  rb_h_upd :: updown
  rb_x_upd :: updown
  rb_emb_linear :: linear_layer
  rb_out_norm :: nat
  rb_out_conv :: conv
  rb_skip_connection :: skip

definition updown_init :: "nat \<Rightarrow> nat \<Rightarrow> bool \<Rightarrow> bool \<Rightarrow> error + updown" where
  "updown_init channels dims up down =
     (if up then ebind (Upsample_init channels False dims None) (\<lambda>u. Inr (UpdUp u))
      else if down then ebind (Downsample_init channels False dims None) (\<lambda>d. Inr (UpdDown d))
      else Inr UpdIdentity)"

definition skip_init :: "nat \<Rightarrow> nat \<Rightarrow> nat \<Rightarrow> bool \<Rightarrow> error + skip" where
  "skip_init dims channels out_channels use_conv =
     (if out_channels = channels then Inr SkipIdentity
      else if use_conv then
        ebind (conv_nd dims channels out_channels 3 (replicate dims 1) 1) (\<lambda>c. Inr (SkipConv c))
      else ebind (conv_nd dims channels out_channels 1 (replicate dims 1) 0) (\<lambda>c. Inr (SkipConv c)))"

definition ResBlock_init ::
  "(nat \<Rightarrow> bool) \<Rightarrow> nat \<Rightarrow> nat \<Rightarrow> nat option \<Rightarrow> bool \<Rightarrow> bool \<Rightarrow> nat \<Rightarrow> bool \<Rightarrow> bool \<Rightarrow> bool
     \<Rightarrow> error + resblock" where
  "ResBlock_init norm_ok channels emb_channels out_channels use_conv use_scale_shift_norm
       dims use_checkpoint up down =
     (let oc = or_default out_channels channels in
      ebind (normalization norm_ok channels) (\<lambda>in_norm.
      ebind (conv_nd dims channels oc 3 (replicate dims 1) 1) (\<lambda>in_conv.
      ebind (updown_init channels dims up down) (\<lambda>h_upd.
      ebind (updown_init channels dims up down) (\<lambda>x_upd.
      ebind (normalization norm_ok oc) (\<lambda>out_norm.
      ebind (conv_nd dims oc oc 3 (replicate dims 1) 1) (\<lambda>out_conv.
      ebind (skip_init dims channels oc use_conv) (\<lambda>sk.
        Inr \<lparr>rb_channels = channels, rb_emb_channels = emb_channels, rb_out_channels = oc,
             rb_use_conv = use_conv, rb_use_checkpoint = use_checkpoint,
             rb_use_scale_shift_norm = use_scale_shift_norm,
             rb_in_norm = in_norm, rb_in_conv = in_conv,
             rb_updown = (up \<or> down), rb_h_upd = h_upd, rb_x_upd = x_upd,
             rb_emb_linear =
               linear_nn emb_channels (if use_scale_shift_norm then 2 * oc else oc),
             rb_out_norm = out_norm, rb_out_conv = zero_module out_conv,
             rb_skip_connection = sk\<rparr>))))))))"

definition updown_forward :: "updown \<Rightarrow> shape \<Rightarrow> error + shape" where
  "updown_forward u x =
     (case u of
        UpdUp up \<Rightarrow> Upsample_forward up x
      | UpdDown d \<Rightarrow> Downsample_forward d x
      | UpdIdentity \<Rightarrow> Inr x)"

definition skip_forward :: "skip \<Rightarrow> shape \<Rightarrow> error + shape" where
  "skip_forward sk x = (case sk of SkipIdentity \<Rightarrow> Inr x | SkipConv c \<Rightarrow> conv_forward c x)"

text \<open>\<^verbatim>\<open>while len(emb_out.shape) < len(h.shape): emb_out = emb_out[..., None]\<close>\<close>

definition pad_rank :: "shape \<Rightarrow> nat \<Rightarrow> shape" where
  "pad_rank e r = e @ replicate (r - length e) 1"

text \<open>
  \<^verbatim>\<open>ResBlock._forward\<close>. The first step yields the pair of the in-transformed features
  and the (possibly resampled) input; the second the conditioned out-transform; the last
  the residual sum. The nonlinearity and dropout keep shapes and are left out.
\<close>

definition ResBlock_in :: "resblock \<Rightarrow> shape \<Rightarrow> error + (shape \<times> shape)" where
  "ResBlock_in rb x =
     (if rb_updown rb then
        ebind (normalization_forward (rb_in_norm rb) x) (\<lambda>h.
        ebind (updown_forward (rb_h_upd rb) h) (\<lambda>h.
        ebind (updown_forward (rb_x_upd rb) x) (\<lambda>x.
        ebind (conv_forward (rb_in_conv rb) h) (\<lambda>h. Inr (h, x)))))
      else
        ebind (normalization_forward (rb_in_norm rb) x) (\<lambda>h.
        ebind (conv_forward (rb_in_conv rb) h) (\<lambda>h. Inr (h, x))))"

definition ResBlock_out :: "resblock \<Rightarrow> shape \<Rightarrow> shape \<Rightarrow> error + shape" where
  "ResBlock_out rb h emb_out =
     (if rb_use_scale_shift_norm rb then
        ebind (chunk2 emb_out) (\<lambda>(scale, shift).
        ebind (normalization_forward (rb_out_norm rb) h) (\<lambda>hn.
        ebind (tensor_add hn scale) (\<lambda>h.
        ebind (tensor_add h shift) (\<lambda>h.
          conv_forward (rb_out_conv rb) h))))
      else
        ebind (tensor_add h emb_out) (\<lambda>h.
        ebind (normalization_forward (rb_out_norm rb) h) (\<lambda>h.
          conv_forward (rb_out_conv rb) h)))"

definition ResBlock_forward :: "resblock \<Rightarrow> shape \<Rightarrow> shape \<Rightarrow> error + shape" where
  "ResBlock_forward rb x emb =
     ebind (ResBlock_in rb x) (\<lambda>(h, x).
     ebind (linear_forward (rb_emb_linear rb) emb) (\<lambda>emb_out.
     ebind (ResBlock_out rb h (pad_rank emb_out (length h))) (\<lambda>h.
     ebind (skip_forward (rb_skip_connection rb) x) (\<lambda>sx.
       tensor_add sx h))))"

section \<open>The attention block\<close>

datatype attention = QKVAttention int | QKVAttentionLegacy int

record attention_block =
  ab_channels :: nat
  ab_num_heads :: int
  ab_use_checkpoint :: bool
  ab_norm :: nat
  ab_qkv :: conv
  ab_attention :: attention
  ab_proj_out :: conv

text \<open>
  \<^verbatim>\<open>AttentionBlock.__init__\<close>: with a per-head width configured, the divisibility
  assertion comes first; \<^verbatim>\<open>channels % 0\<close> raises before the comparison is made.
\<close>

definition AttentionBlock_heads :: "nat \<Rightarrow> int \<Rightarrow> int \<Rightarrow> error + int" where
  "AttentionBlock_heads channels num_heads num_head_channels =
     (if num_head_channels = -1 then Inr num_heads
      else if num_head_channels = 0 then Inl ZeroDivisionError
      else if int channels mod num_head_channels \<noteq> 0 then Inl AssertionError
      else Inr (int channels div num_head_channels))"

definition AttentionBlock_init ::
  "(nat \<Rightarrow> bool) \<Rightarrow> nat \<Rightarrow> int \<Rightarrow> int \<Rightarrow> bool \<Rightarrow> bool \<Rightarrow> error + attention_block" where
  "AttentionBlock_init norm_ok channels num_heads num_head_channels use_checkpoint
       use_new_attention_order =
     ebind (AttentionBlock_heads channels num_heads num_head_channels) (\<lambda>heads.
     ebind (normalization norm_ok channels) (\<lambda>nrm.
     ebind (conv_nd 1 channels (channels * 3) 1 [1] 0) (\<lambda>qkv.
     ebind (conv_nd 1 channels channels 1 [1] 0) (\<lambda>proj.
       Inr \<lparr>ab_channels = channels, ab_num_heads = heads, ab_use_checkpoint = use_checkpoint,
            ab_norm = nrm, ab_qkv = qkv,
            ab_attention = (if use_new_attention_order then QKVAttention heads
                            else QKVAttentionLegacy heads),
            ab_proj_out = zero_module proj\<rparr>))))"

text \<open>
  The head width \<^verbatim>\<open>ch = width // (3 * n_heads)\<close> of both attention classes. A zero head
  count divides by zero, the assertion checks divisibility, and a head width that is not
  positive fails in both classes (in \<^verbatim>\<open>reshape\<close>, in the unpacking of \<^verbatim>\<open>split\<close> or in
  \<^verbatim>\<open>1 / math.sqrt(math.sqrt(ch))\<close>); the model does not tell these last failures apart.
\<close>

definition qkv_head_width :: "int \<Rightarrow> nat \<Rightarrow> error + nat" where
  "qkv_head_width n_heads width =
     (if n_heads = 0 then Inl ZeroDivisionError
      else if int width mod (3 * n_heads) \<noteq> 0 then Inl AssertionError
      else if int width div (3 * n_heads) \<le> 0 then Inl RuntimeError
      else Inr (nat (int width div (3 * n_heads))))"

definition attention_heads :: "attention \<Rightarrow> int" where
  "attention_heads a = (case a of QKVAttention h \<Rightarrow> h | QKVAttentionLegacy h \<Rightarrow> h)"

definition attention_forward :: "attention \<Rightarrow> shape \<Rightarrow> error + shape" where
  "attention_forward a qkv =
     (case qkv of
        [bs, width, len] \<Rightarrow>
          ebind (qkv_head_width (attention_heads a) width) (\<lambda>ch.
            if bs * len = 0 then Inl RuntimeError
            else Inr [bs, nat (attention_heads a) * ch, len])
      | _ \<Rightarrow> Inl ValueError)"

definition AttentionBlock_forward :: "attention_block \<Rightarrow> shape \<Rightarrow> error + shape" where
  "AttentionBlock_forward ab x =
     (if length x < 2 then Inl ValueError
      else if x ! 0 * x ! 1 = 0 then Inl RuntimeError
      else
        let x3 = [x ! 0, x ! 1, prod_list (drop 2 x)] in
        ebind (normalization_forward (ab_norm ab) x3) (\<lambda>xn.
        ebind (conv_forward (ab_qkv ab) xn) (\<lambda>qkv.
        ebind (attention_forward (ab_attention ab) qkv) (\<lambda>h.
        ebind (conv_forward (ab_proj_out ab) h) (\<lambda>h.
        ebind (tensor_add x3 h) (\<lambda>r.
          if prod_list r = prod_list x then Inr x else Inl RuntimeError))))))"

section \<open>Stages\<close>

datatype layer =
    ConvL conv
  | ResBlockL resblock
  | AttentionL attention_block
  | UpsampleL upsample
  | DownsampleL downsample

text \<open>
  A \<^verbatim>\<open>TimestepEmbedSequential\<close>. \<open>stage_ds\<close> is a ghost field: the value of the
  constructor's resolution counter \<^verbatim>\<open>ds\<close> when the construction of the stage begins. No
  forward function reads it.
\<close>

record stage =
  stage_ds :: nat
  stage_layers :: "layer list"

definition layer_forward :: "layer \<Rightarrow> shape \<Rightarrow> shape \<Rightarrow> error + shape" where
  "layer_forward l x emb =
     (case l of
        ConvL c \<Rightarrow> conv_forward c x
      | ResBlockL rb \<Rightarrow> ResBlock_forward rb x emb
      | AttentionL ab \<Rightarrow> AttentionBlock_forward ab x
      | UpsampleL u \<Rightarrow> Upsample_forward u x
      | DownsampleL d \<Rightarrow> Downsample_forward d x)"

fun layers_forward :: "layer list \<Rightarrow> shape \<Rightarrow> shape \<Rightarrow> error + shape" where
  "layers_forward [] x emb = Inr x"
| "layers_forward (l # ls) x emb = ebind (layer_forward l x emb) (\<lambda>x'. layers_forward ls x' emb)"

definition TimestepEmbedSequential_forward :: "stage \<Rightarrow> shape \<Rightarrow> shape \<Rightarrow> error + shape" where
  "TimestepEmbedSequential_forward st x emb = layers_forward (stage_layers st) x emb"

section \<open>The backbone: construction\<close>

text \<open>
  The keyword arguments of \<^verbatim>\<open>EchoDNDUNet.__init__\<close>. The dropout rate is a float that no
  shape depends on and is left out.
\<close>

record config =
  image_size :: nat
  in_channels :: nat
  model_channels :: nat
  out_channels_gaussian :: nat
  out_channels_bernoulli :: nat
  num_res_blocks :: nat
  attention_resolutions :: "nat set"
  channel_mult :: "nat list"
  conv_resample :: bool
  dims :: nat
  num_classes :: "nat option"
  use_checkpoint :: bool
  use_fp16 :: bool
  num_heads :: int
  num_head_channels :: int
  num_heads_upsample :: int
  use_scale_shift_norm :: bool
  resblock_updown :: bool
  use_new_attention_order :: bool
  high_way :: bool

text \<open>
  The external conditioning module: its constructor arguments are recorded; what it
  computes is a parameter of the forward call.
\<close>

record hrnet =
  hr_in_ch :: int
  hr_out_ch :: nat
  hr_mid_ch :: nat
  hr_num_stage :: nat

text \<open>
  The local state of the constructor while the ladders are built. The channel ledger
  \<^verbatim>\<open>input_block_chans\<close> is kept with its last element first, so \<^verbatim>\<open>append\<close> is \<open>#\<close>
  and \<^verbatim>\<open>pop()\<close> takes the head.
\<close>

record builder =
  b_blocks :: "stage list"
  b_ch :: nat
  b_ds :: nat
  b_chans :: "nat list"
  b_feature_size :: nat

definition time_embed_dim :: "config \<Rightarrow> nat" where
  "time_embed_dim cfg = model_channels cfg * 4"

definition heads_upsample :: "config \<Rightarrow> int" where
  "heads_upsample cfg =
     (if num_heads_upsample cfg = -1 then num_heads cfg else num_heads_upsample cfg)"

text \<open>The inner loop \<^verbatim>\<open>for _ in range(num_res_blocks)\<close> of the encoder, by remaining count.\<close>

fun enc_res_blocks :: "(nat \<Rightarrow> bool) \<Rightarrow> config \<Rightarrow> nat \<Rightarrow> nat \<Rightarrow> builder \<Rightarrow> error + builder" where
  "enc_res_blocks norm_ok cfg mult 0 st = Inr st"
| "enc_res_blocks norm_ok cfg mult (Suc k) st =
     ebind (ResBlock_init norm_ok (b_ch st) (time_embed_dim cfg)
              (Some (mult * model_channels cfg)) False (use_scale_shift_norm cfg) (dims cfg)
              (use_checkpoint cfg) False False) (\<lambda>rb.
     let ch = mult * model_channels cfg in
     ebind (if b_ds st \<in> attention_resolutions cfg then
              ebind (AttentionBlock_init norm_ok ch (num_heads cfg) (num_head_channels cfg)
                       (use_checkpoint cfg) (use_new_attention_order cfg)) (\<lambda>ab.
                Inr [ResBlockL rb, AttentionL ab])
            else Inr [ResBlockL rb]) (\<lambda>layers.
     enc_res_blocks norm_ok cfg mult k
       (st\<lparr>b_blocks := b_blocks st @ [\<lparr>stage_ds = b_ds st, stage_layers = layers\<rparr>],
           b_ch := ch,
           b_chans := ch # b_chans st,
           b_feature_size := b_feature_size st + ch\<rparr>)))"

text \<open>The transition \<^verbatim>\<open>if level != len(channel_mult) - 1\<close> that closes an encoder level.\<close>

definition enc_downsample :: "(nat \<Rightarrow> bool) \<Rightarrow> config \<Rightarrow> builder \<Rightarrow> error + builder" where
  "enc_downsample norm_ok cfg st =
     (let out_ch = b_ch st in
      ebind (if resblock_updown cfg then
               ebind (ResBlock_init norm_ok (b_ch st) (time_embed_dim cfg) (Some out_ch) False
                        (use_scale_shift_norm cfg) (dims cfg) (use_checkpoint cfg) False True)
                 (\<lambda>rb. Inr (ResBlockL rb))
             else
               ebind (Downsample_init (b_ch st) (conv_resample cfg) (dims cfg) (Some out_ch))
                 (\<lambda>d. Inr (DownsampleL d))) (\<lambda>l.
        Inr (st\<lparr>b_blocks := b_blocks st @ [\<lparr>stage_ds = b_ds st, stage_layers = [l]\<rparr>],
                b_ch := out_ch,
                b_chans := out_ch # b_chans st,
                b_ds := b_ds st * 2,
                b_feature_size := b_feature_size st + out_ch\<rparr>)))"

fun enc_levels ::
  "(nat \<Rightarrow> bool) \<Rightarrow> config \<Rightarrow> (nat \<times> nat) list \<Rightarrow> builder \<Rightarrow> error + builder" where
  "enc_levels norm_ok cfg [] st = Inr st"
| "enc_levels norm_ok cfg ((level, mult) # rest) st =
     ebind (enc_res_blocks norm_ok cfg mult (num_res_blocks cfg) st) (\<lambda>st.
     ebind (if int level \<noteq> int (length (channel_mult cfg)) - 1
            then enc_downsample norm_ok cfg st else Inr st) (\<lambda>st.
       enc_levels norm_ok cfg rest st))"

definition build_encoder :: "(nat \<Rightarrow> bool) \<Rightarrow> config \<Rightarrow> error + builder" where
  "build_encoder norm_ok cfg =
     ebind (conv_nd (dims cfg) (in_channels cfg) (model_channels cfg) 3
              (replicate (dims cfg) 1) 1) (\<lambda>c.
       enc_levels norm_ok cfg (enumerate 0 (channel_mult cfg))
         \<lparr>b_blocks = [\<lparr>stage_ds = 1, stage_layers = [ConvL c]\<rparr>],
          b_ch = model_channels cfg, b_ds = 1, b_chans = [model_channels cfg],
          b_feature_size = model_channels cfg\<rparr>)"

definition build_middle :: "(nat \<Rightarrow> bool) \<Rightarrow> config \<Rightarrow> builder \<Rightarrow> error + stage" where
  "build_middle norm_ok cfg st =
     ebind (ResBlock_init norm_ok (b_ch st) (time_embed_dim cfg) None False
              (use_scale_shift_norm cfg) (dims cfg) (use_checkpoint cfg) False False) (\<lambda>r1.
     ebind (AttentionBlock_init norm_ok (b_ch st) (num_heads cfg) (num_head_channels cfg)
              (use_checkpoint cfg) (use_new_attention_order cfg)) (\<lambda>ab.
     ebind (ResBlock_init norm_ok (b_ch st) (time_embed_dim cfg) None False
              (use_scale_shift_norm cfg) (dims cfg) (use_checkpoint cfg) False False) (\<lambda>r2.
       Inr \<lparr>stage_ds = b_ds st,
            stage_layers = [ResBlockL r1, AttentionL ab, ResBlockL r2]\<rparr>)))"

text \<open>
  The inner loop \<^verbatim>\<open>for i in range(num_res_blocks + 1)\<close> of the decoder, by remaining
  count: the iteration with \<^verbatim>\<open>i == num_res_blocks\<close> is the one with nothing remaining
  after it.
\<close>

fun dec_blocks ::
  "(nat \<Rightarrow> bool) \<Rightarrow> config \<Rightarrow> nat \<Rightarrow> nat \<Rightarrow> nat \<Rightarrow> builder \<Rightarrow> error + builder" where
  "dec_blocks norm_ok cfg level mult 0 st = Inr st"
| "dec_blocks norm_ok cfg level mult (Suc k) st =
     (case b_chans st of
        [] \<Rightarrow> Inl IndexError
      | ich # chans \<Rightarrow>
          ebind (ResBlock_init norm_ok (b_ch st + ich) (time_embed_dim cfg)
                   (Some (model_channels cfg * mult)) False (use_scale_shift_norm cfg)
                   (dims cfg) (use_checkpoint cfg) False False) (\<lambda>rb.
          let ch = model_channels cfg * mult in
          ebind (if b_ds st \<in> attention_resolutions cfg then
                   ebind (AttentionBlock_init norm_ok ch (heads_upsample cfg)
                            (num_head_channels cfg) (use_checkpoint cfg)
                            (use_new_attention_order cfg)) (\<lambda>ab.
                     Inr [ResBlockL rb, AttentionL ab])
                 else Inr [ResBlockL rb]) (\<lambda>layers.
          ebind (if level \<noteq> 0 \<and> k = 0 then
                   (let out_ch = ch in
                    ebind (if resblock_updown cfg then
                             ebind (ResBlock_init norm_ok ch (time_embed_dim cfg) (Some out_ch)
                                      False (use_scale_shift_norm cfg) (dims cfg)
                                      (use_checkpoint cfg) True False)
                               (\<lambda>rb. Inr (ResBlockL rb))
                           else
                             ebind (Upsample_init ch (conv_resample cfg) (dims cfg)
                                      (Some out_ch))
                               (\<lambda>u. Inr (UpsampleL u))) (\<lambda>l.
                      Inr (layers @ [l], b_ds st div 2)))
                 else Inr (layers, b_ds st)) (\<lambda>(layers, ds).
          dec_blocks norm_ok cfg level mult k
            (st\<lparr>b_blocks := b_blocks st @ [\<lparr>stage_ds = b_ds st, stage_layers = layers\<rparr>],
                b_ch := ch,
                b_chans := chans,
                b_ds := ds,
                b_feature_size := b_feature_size st + ch\<rparr>)))))"

fun dec_levels ::
  "(nat \<Rightarrow> bool) \<Rightarrow> config \<Rightarrow> (nat \<times> nat) list \<Rightarrow> builder \<Rightarrow> error + builder" where
  "dec_levels norm_ok cfg [] st = Inr st"
| "dec_levels norm_ok cfg ((level, mult) # rest) st =
     ebind (dec_blocks norm_ok cfg level mult (num_res_blocks cfg + 1) st) (\<lambda>st.
       dec_levels norm_ok cfg rest st)"

text \<open>
  The decoder starts from the encoder's final state with an empty module list and the
  feature size advanced by the middle block.
\<close>

definition build_decoder :: "(nat \<Rightarrow> bool) \<Rightarrow> config \<Rightarrow> builder \<Rightarrow> error + builder" where
  "build_decoder norm_ok cfg st =
     dec_levels norm_ok cfg (rev (enumerate 0 (channel_mult cfg)))
       (st\<lparr>b_blocks := [], b_feature_size := b_feature_size st + b_ch st\<rparr>)"

text \<open>
  The output projection \<^verbatim>\<open>nn.Sequential(normalization(ch), nn.SiLU(),
  zero_module(conv_nd(dims, model_channels, out_channels, 3, padding=1)))\<close>.
\<close>

record out_proj =
  op_norm :: nat
  op_conv :: conv

definition build_out :: "(nat \<Rightarrow> bool) \<Rightarrow> config \<Rightarrow> nat \<Rightarrow> nat \<Rightarrow> error + out_proj" where
  "build_out norm_ok cfg ch out_channels =
     ebind (normalization norm_ok ch) (\<lambda>nrm.
     ebind (conv_nd (dims cfg) (model_channels cfg) out_channels 3 (replicate (dims cfg) 1) 1)
       (\<lambda>c. Inr \<lparr>op_norm = nrm, op_conv = zero_module c\<rparr>))"

text \<open>A deep copy of an immutable value is the value.\<close>

definition deepcopy :: "'a \<Rightarrow> 'a" where
  "deepcopy v = v"

record unet =
  u_image_size :: nat
  u_in_channels :: nat
  u_model_channels :: nat
  u_num_res_blocks :: nat
  u_attention_resolutions :: "nat set"
  u_channel_mult :: "nat list"
  u_conv_resample :: bool
  u_num_classes :: "nat option"
  u_use_checkpoint :: bool
  u_use_fp16 :: bool
  u_num_heads :: int
  u_num_head_channels :: int
  u_num_heads_upsample :: int
  time_embed :: "linear_layer \<times> linear_layer"
  label_emb :: "(nat \<times> nat) option"
  input_blocks_gaussian :: "stage list"
  middle_block_gaussian :: stage
  output_blocks_gaussian :: "stage list"
  out_gaussian :: out_proj
  input_blocks_bernoulli :: "stage list"
  middle_block_bernoulli :: stage
  output_blocks_bernoulli :: "stage list"
  out_bernoulli :: out_proj
  mfcm :: "hrnet option"
  u_feature_size :: nat

definition EchoDNDUNet_init :: "(nat \<Rightarrow> bool) \<Rightarrow> config \<Rightarrow> error + unet" where
  "EchoDNDUNet_init norm_ok cfg =
     ebind (build_encoder norm_ok cfg) (\<lambda>enc.
     ebind (build_middle norm_ok cfg enc) (\<lambda>mid.
     ebind (build_decoder norm_ok cfg enc) (\<lambda>dec.
     ebind (build_out norm_ok cfg (b_ch dec) (out_channels_gaussian cfg)) (\<lambda>og.
     ebind (build_out norm_ok cfg (b_ch dec) (out_channels_bernoulli cfg)) (\<lambda>ob.
       Inr \<lparr>u_image_size = image_size cfg,
            u_in_channels = in_channels cfg,
            u_model_channels = model_channels cfg,
            u_num_res_blocks = num_res_blocks cfg,
            u_attention_resolutions = attention_resolutions cfg,
            u_channel_mult = channel_mult cfg,
            u_conv_resample = conv_resample cfg,
            u_num_classes = num_classes cfg,
            u_use_checkpoint = use_checkpoint cfg,
            u_use_fp16 = use_fp16 cfg,
            u_num_heads = num_heads cfg,
            u_num_head_channels = num_head_channels cfg,
            u_num_heads_upsample = heads_upsample cfg,
            time_embed = (linear_nn (model_channels cfg) (time_embed_dim cfg),
                          linear_nn (time_embed_dim cfg) (time_embed_dim cfg)),
            label_emb = (case num_classes cfg of None \<Rightarrow> None
                         | Some n \<Rightarrow> Some (n, time_embed_dim cfg)),
            input_blocks_gaussian = b_blocks enc,
            middle_block_gaussian = mid,
            output_blocks_gaussian = b_blocks dec,
            out_gaussian = og,
            input_blocks_bernoulli = deepcopy (b_blocks enc),
            middle_block_bernoulli = deepcopy mid,
            output_blocks_bernoulli = deepcopy (b_blocks dec),
            out_bernoulli = ob,
            mfcm = (if high_way cfg
                    then Some \<lparr>hr_in_ch = int (in_channels cfg) - 1, hr_out_ch = 1,
                               hr_mid_ch = 32, hr_num_stage = 4\<rparr>
                    else None),
            u_feature_size = b_feature_size dec\<rparr>)))))"

section \<open>The backbone: forward call\<close>

text \<open>
  The conditioning module is an external collaborator: \<open>f\<close> gives, for the recorded
  module and the shape of its input, the pair of anchor shapes and the shape of the
  calibration map, or the exception it raises. A backbone built without the module has no
  attribute \<^verbatim>\<open>mfcm\<close>.
\<close>

type_synonym mfcm_fn = "hrnet \<Rightarrow> shape \<Rightarrow> error + ((shape \<times> shape) \<times> shape)"

definition mfcm_forward :: "mfcm_fn \<Rightarrow> unet \<Rightarrow> shape \<Rightarrow> error + ((shape \<times> shape) \<times> shape)" where
  "mfcm_forward f m x = (case mfcm m of None \<Rightarrow> Inl AttributeError | Some h \<Rightarrow> f h x)"

definition time_embed_forward :: "linear_layer \<times> linear_layer \<Rightarrow> shape \<Rightarrow> error + shape" where
  "time_embed_forward te x =
     ebind (linear_forward (fst te) x) (\<lambda>e. linear_forward (snd te) e)"

definition squeeze :: "shape \<Rightarrow> shape" where
  "squeeze x = filter (\<lambda>d. d \<noteq> 1) x"

definition out_forward :: "out_proj \<Rightarrow> shape \<Rightarrow> error + shape" where
  "out_forward p x =
     ebind (normalization_forward (op_norm p) x) (\<lambda>h. conv_forward (op_conv p) h)"

text \<open>
  The local state of a forward call. The skip stacks are kept with their last element
  first: \<^verbatim>\<open>append\<close> is \<open>#\<close> and \<^verbatim>\<open>pop()\<close> takes the head.
\<close>

record fwd =
  emb :: shape
  h_gaussian :: shape
  h_bernoulli :: shape
  hs_gaussian :: "shape list"
  hs_bernoulli :: "shape list"

text \<open>
  The encoder loop \<^verbatim>\<open>for ind in range(len(self.input_blocks_gaussian))\<close>: the first
  list drives the loop, the second is indexed with the same \<^verbatim>\<open>ind\<close>.
\<close>

fun enc_loop :: "stage list \<Rightarrow> stage list \<Rightarrow> nat \<Rightarrow> shape \<times> shape \<Rightarrow> fwd \<Rightarrow> error + fwd" where
  "enc_loop [] bbs ind anch s = Inr s"
| "enc_loop (bg # bgs) bbs ind anch s =
     (let e = (if 2 < length (emb s) then squeeze (emb s) else emb s) in
      ebind (TimestepEmbedSequential_forward bg (h_gaussian s) e) (\<lambda>hg.
      case bbs of
        [] \<Rightarrow> Inl IndexError
      | bb # bbs' \<Rightarrow>
          ebind (TimestepEmbedSequential_forward bb (h_bernoulli s) e) (\<lambda>hb.
          ebind (if ind = 0 then
                   ebind (cat1 [fst anch, fst anch, snd anch]) (\<lambda>a.
                   ebind (tensor_add hg a) (\<lambda>hg'.
                   ebind (cat1 [fst anch, fst anch, snd anch]) (\<lambda>a.
                   ebind (tensor_add hb a) (\<lambda>hb'. Inr (hg', hb')))))
                 else Inr (hg, hb)) (\<lambda>(hg, hb).
            enc_loop bgs bbs' (ind + 1) anch
              (s\<lparr>emb := e, h_gaussian := hg, h_bernoulli := hb,
                 hs_gaussian := hg # hs_gaussian s,
                 hs_bernoulli := hb # hs_bernoulli s\<rparr>)))))"

fun dec_loop :: "stage list \<Rightarrow> stage list \<Rightarrow> fwd \<Rightarrow> error + fwd" where
  "dec_loop [] bbs s = Inr s"
| "dec_loop (bg # bgs) bbs s =
     (case hs_gaussian s of
        [] \<Rightarrow> Inl IndexError
      | sg # restg \<Rightarrow>
          ebind (cat1 [h_gaussian s, sg]) (\<lambda>cg.
          ebind (TimestepEmbedSequential_forward bg cg (emb s)) (\<lambda>hg.
          case hs_bernoulli s of
            [] \<Rightarrow> Inl IndexError
          | sb # restb \<Rightarrow>
              ebind (cat1 [h_bernoulli s, sb]) (\<lambda>cb.
              case bbs of
                [] \<Rightarrow> Inl IndexError
              | bb # bbs' \<Rightarrow>
                  ebind (TimestepEmbedSequential_forward bb cb (emb s)) (\<lambda>hb.
                    dec_loop bgs bbs'
                      (s\<lparr>h_gaussian := hg, h_bernoulli := hb,
                         hs_gaussian := restg, hs_bernoulli := restb\<rparr>))))))"

text \<open>
  \<^verbatim>\<open>EchoDNDUNet.forward\<close> up to the end of the decoder loop: the state of the call and
  the calibration map. \<open>x[1 := 1]\<close> is the shape of each of the three slices
  \<^verbatim>\<open>x[:,0:1]\<close>, \<^verbatim>\<open>x[:,1:2]\<close>, \<^verbatim>\<open>x[:,2:3]\<close> of a three-channel input.
\<close>

definition forward_trunk ::
  "mfcm_fn \<Rightarrow> unet \<Rightarrow> shape \<Rightarrow> shape \<Rightarrow> shape option \<Rightarrow> error + (fwd \<times> shape)" where
  "forward_trunk f m x timesteps y =
     (if length x < 2 then Inl IndexError
      else if x ! 1 \<noteq> 3 then Inl AssertionError
      else
        let x_img = x[1 := 1]; noise_gaussian = x[1 := 1]; noise_bernoulli = x[1 := 1] in
        if (y \<noteq> None) \<noteq> (u_num_classes m \<noteq> None) then Inl AssertionError
        else
          ebind (timestep_embedding timesteps (u_model_channels m)) (\<lambda>te.
          ebind (time_embed_forward (time_embed m) te) (\<lambda>e.
          if u_num_classes m \<noteq> None then Inl NotImplementedError
          else
            ebind (mfcm_forward f m x_img) (\<lambda>(anch, cal).
            ebind (cat1 [x_img, noise_gaussian]) (\<lambda>hg.
            ebind (cat1 [x_img, noise_bernoulli]) (\<lambda>hb.
            ebind (enc_loop (input_blocks_gaussian m) (input_blocks_bernoulli m) 0 anch
                     \<lparr>emb = e, h_gaussian = hg, h_bernoulli = hb,
                      hs_gaussian = [], hs_bernoulli = []\<rparr>) (\<lambda>s.
            ebind (TimestepEmbedSequential_forward (middle_block_gaussian m)
                     (h_gaussian s) (emb s)) (\<lambda>hg.
            ebind (TimestepEmbedSequential_forward (middle_block_bernoulli m)
                     (h_bernoulli s) (emb s)) (\<lambda>hb.
            ebind (dec_loop (output_blocks_gaussian m) (output_blocks_bernoulli m)
                     (s\<lparr>h_gaussian := hg, h_bernoulli := hb\<rparr>)) (\<lambda>s.
              Inr (s, cal)))))))))))"

definition forward ::
  "mfcm_fn \<Rightarrow> unet \<Rightarrow> shape \<Rightarrow> shape \<Rightarrow> shape option \<Rightarrow> error + (shape \<times> shape \<times> shape)" where
  "forward f m x timesteps y =
     ebind (forward_trunk f m x timesteps y) (\<lambda>(s, cal).
     ebind (out_forward (out_gaussian m) (h_gaussian s)) (\<lambda>og.
     ebind (out_forward (out_bernoulli m) (h_bernoulli s)) (\<lambda>ob.
       Inr (og, ob, cal))))"

section \<open>Auxiliary notions for the statements\<close>

text \<open>The effect of a resampling direction on one spatial size.\<close>

definition resample :: "bool \<Rightarrow> bool \<Rightarrow> nat \<Rightarrow> nat" where
  "resample up down x = (if up then 2 * x else if down then x div 2 else x)"

text \<open>
  The values of the resolution counter \<^verbatim>\<open>ds\<close> at the stages of an encoder ladder with
  \<open>r\<close> levels left, \<open>n\<close> residual stages per level and the counter at \<open>d\<close>, and at the
  stages of a decoder ladder with \<open>r\<close> levels left.
\<close>

fun enc_ds :: "nat \<Rightarrow> nat \<Rightarrow> nat \<Rightarrow> nat list" where
  "enc_ds n d 0 = []"
| "enc_ds n d (Suc r) = replicate n d @ (if r = 0 then [] else d # enc_ds n (d * 2) r)"

fun dec_ds :: "nat \<Rightarrow> nat \<Rightarrow> nat \<Rightarrow> nat list" where
  "dec_ds n d 0 = []"
| "dec_ds n d (Suc r) = replicate (n + 1) d @ dec_ds n (if r = 0 then d else d div 2) r"

text \<open>
  A stage holds an attention block; a stage is a residual stage when it starts with a
  residual block that does not resample; the channel counts a resampling layer declares.
\<close>

fun is_attention :: "layer \<Rightarrow> bool" where
  "is_attention (AttentionL ab) = True"
| "is_attention _ = False"

definition has_attention :: "stage \<Rightarrow> bool" where
  "has_attention s = list_ex is_attention (stage_layers s)"

definition residual_stage :: "stage \<Rightarrow> bool" where
  "residual_stage s =
     (case stage_layers s of ResBlockL rb # _ \<Rightarrow> \<not> rb_updown rb | _ \<Rightarrow> False)"

fun resampling_io :: "layer \<Rightarrow> (nat \<times> nat) option" where
  "resampling_io (DownsampleL d) = Some (down_channels d, down_out_channels d)"
| "resampling_io (UpsampleL u) = Some (up_channels u, up_out_channels u)"
| "resampling_io (ResBlockL rb) =
     (if rb_updown rb then Some (rb_channels rb, rb_out_channels rb) else None)"
| "resampling_io _ = None"

definition stage_ok :: "config \<Rightarrow> stage \<Rightarrow> bool" where
  "stage_ok cfg s \<longleftrightarrow>
     (has_attention s \<longleftrightarrow> residual_stage s \<and> stage_ds s \<in> attention_resolutions cfg) \<and>
     list_all (\<lambda>l. case resampling_io l of None \<Rightarrow> True | Some (i, out) \<Rightarrow> out = i)
       (stage_layers s)"

text \<open>
  A sufficient condition for the constructor to return: the normalisation layer accepts
  every multiple of the base channel count, the dimensionality is supported and no
  per-head width is configured.
\<close>

definition constructible :: "(nat \<Rightarrow> bool) \<Rightarrow> config \<Rightarrow> bool" where
  "constructible norm_ok cfg \<longleftrightarrow>
     (\<forall>c. model_channels cfg dvd c \<longrightarrow> norm_ok c) \<and>
     (dims cfg = 1 \<or> dims cfg = 2 \<or> dims cfg = 3) \<and> num_head_channels cfg = - 1"

section \<open>The configuration of the end-to-end example\<close>

text \<open>
  The configuration of the spec's end-to-end example, with the defaults of the
  constructor for the arguments it leaves out; a normalisation layer that accepts the
  multiples of 32; and a conditioning module that keeps the spatial size and returns
  anchors of 8 and 16 channels, so that \<open>2 * 8 + 16\<close> is the base channel count.
\<close>

definition example_config :: config where
  "example_config =
     \<lparr>image_size = 64, in_channels = 2, model_channels = 32,
      out_channels_gaussian = 2, out_channels_bernoulli = 1, num_res_blocks = 1,
      attention_resolutions = {2}, channel_mult = [1, 2, 4], conv_resample = True, dims = 2,
      num_classes = None, use_checkpoint = False, use_fp16 = False, num_heads = 1,
      num_head_channels = - 1, num_heads_upsample = - 1, use_scale_shift_norm = False,
      resblock_updown = False, use_new_attention_order = False, high_way = True\<rparr>"

definition example_norm_ok :: "nat \<Rightarrow> bool" where
  "example_norm_ok c \<longleftrightarrow> c mod 32 = 0"

definition example_mfcm :: mfcm_fn where
  "example_mfcm hr x =
     (case x of
        [n, c, h, w] \<Rightarrow>
          if int c = hr_in_ch hr
          then Inr (([n, 8, h, w], [n, 16, h, w]), [n, hr_out_ch hr, h, w])
          else Inl RuntimeError
      | _ \<Rightarrow> Inl RuntimeError)"

text \<open>
  Which stages of an encoder ladder with \<open>r\<close> levels left are residual stages: the \<open>n\<close>
  stages of a level are, the transition that follows is not.
\<close>

fun enc_kinds :: "nat \<Rightarrow> nat \<Rightarrow> bool list" where
  "enc_kinds n 0 = []"
| "enc_kinds n (Suc r) = replicate n True @ (if r = 0 then [] else False # enc_kinds n r)"

text \<open>The example configuration with an empty ladder, \<^verbatim>\<open>channel_mult=()\<close>.\<close>

definition empty_ladder_config :: config where
  "empty_ladder_config = example_config\<lparr>channel_mult := []\<rparr>"

section \<open>Basic facts\<close>

lemma ebind_Inl [simp]: "ebind (Inl e) f = Inl e"
  by (simp add: ebind_def)

lemma ebind_Inr [simp]: "ebind (Inr v) f = f v"
  by (simp add: ebind_def)

lemma ebind_eq_Inr: "ebind m f = Inr r \<longleftrightarrow> (\<exists>v. m = Inr v \<and> f v = Inr r)"
  by (cases m) simp_all

lemma ebind_eq_InrE:
  assumes "ebind m f = Inr r"
  obtains v where "m = Inr v" and "f v = Inr r"
  using assms by (auto simp: ebind_eq_Inr)

section \<open>Shapes through the modules\<close>

lemma tensor_add_same [simp]: "tensor_add x x = Inr x"
proof -
  have "broadcast_rev ys ys = Some ys" for ys :: "nat list"
    by (induction ys) auto
  then show ?thesis by (simp add: tensor_add_def)
qed

lemma tensor_add_emb4 [simp]: "tensor_add [N, c, h, w] [N, c, Suc 0, Suc 0] = Inr [N, c, h, w]"
  by (simp add: tensor_add_def)

lemma replicate_2 [simp]: "replicate 2 x = [x, x]"
  by (simp add: numeral_2_eq_2)

lemma conv_ndE:
  assumes "conv_nd d a b k s p = Inr c"
  obtains "c = \<lparr>conv_dims = d, conv_in = a, conv_out = b, conv_kernel = k,
                conv_stride = s, conv_padding = p, conv_zeroed = False\<rparr>"
    and "d = 1 \<or> d = 2 \<or> d = 3"
  using assms by (auto simp: conv_nd_def split: if_splits)

lemma conv_nd_eq:
  assumes "conv_nd d a b k s p = Inr c"
  shows "c = \<lparr>conv_dims = d, conv_in = a, conv_out = b, conv_kernel = k,
                conv_stride = s, conv_padding = p, conv_zeroed = False\<rparr>"
  using assms by (auto simp: conv_nd_def split: if_splits)

lemma normalizationE:
  assumes "normalization norm_ok c = Inr n"
  obtains "n = c" and "norm_ok c"
  using assms by (auto simp: normalization_def split: if_splits)

lemma conv_forward_3x3 [simp]:
  assumes "0 < h" "0 < w"
  shows "conv_forward \<lparr>conv_dims = 2, conv_in = a, conv_out = b, conv_kernel = 3,
           conv_stride = [Suc 0, Suc 0], conv_padding = Suc 0, conv_zeroed = z\<rparr> [N, a, h, w]
         = Inr [N, b, h, w]"
  using assms by (simp add: conv_forward_def conv_out_size_def)

lemma conv_forward_1x1 [simp]:
  assumes "0 < h" "0 < w"
  shows "conv_forward \<lparr>conv_dims = 2, conv_in = a, conv_out = b, conv_kernel = Suc 0,
           conv_stride = [Suc 0, Suc 0], conv_padding = 0, conv_zeroed = z\<rparr> [N, a, h, w]
         = Inr [N, b, h, w]"
  using assms by (simp add: conv_forward_def conv_out_size_def)

lemma normalization_forward_4 [simp]: "normalization_forward c [N, c, h, w] = Inr [N, c, h, w]"
  by (simp add: normalization_forward_def)

lemma chunk2_even [simp]: "chunk2 [N, 2 * c, a, b] = Inr ([N, c, a, b], [N, c, a, b])"
proof -
  have "(2 * c + 1) div 2 = c" by simp
  moreover have "2 * c \<noteq> Suc 0" by presburger
  ultimately show ?thesis by (simp add: chunk2_def)
qed

lemma pad_rank_2_4 [simp]: "pad_rank [a, b] (length [x1, x2, x3, x4]) = [a, b, Suc 0, Suc 0]"
  by (simp add: pad_rank_def numeral_eq_Suc)

lemma ResBlock_forward_compose:
  assumes "ResBlock_in rb x = Inr (h1, x1)"
    and "linear_forward (rb_emb_linear rb) e = Inr eo"
    and "ResBlock_out rb h1 (pad_rank eo (length h1)) = Inr h2"
    and "skip_forward (rb_skip_connection rb) x1 = Inr h2"
  shows "ResBlock_forward rb x e = Inr h2"
  using assms by (simp add: ResBlock_forward_def)

lemma ResBlock_out_shape:
  assumes "rb_out_norm rb = oc"
    and "rb_out_conv rb = \<lparr>conv_dims = 2, conv_in = oc, conv_out = oc, conv_kernel = 3,
           conv_stride = [Suc 0, Suc 0], conv_padding = Suc 0, conv_zeroed = z\<rparr>"
    and "0 < h" "0 < w"
  shows "ResBlock_out rb [N, oc, h, w]
           (pad_rank [N, if rb_use_scale_shift_norm rb then 2 * oc else oc]
              (length [N, oc, h, w])) = Inr [N, oc, h, w]"
  using assms
  by (simp add: ResBlock_out_def del: length_Cons list.size)

lemma or_default_simps [simp]:
  "or_default None c = c"
  "0 < v \<Longrightarrow> or_default (Some v) c = v"
  "or_default (Some c) c = c"
  by (simp_all add: or_default_def)

lemma pool_half: "2 \<le> h \<Longrightarrow> (h - 2) div 2 + 1 = h div (2::nat)"
  by presburger

lemma conv_half: "2 \<le> h \<Longrightarrow> even h \<Longrightarrow> Suc ((h - Suc 0) div 2) = h div (2::nat)"
  by presburger

lemma updown_forward_shape:
  assumes "updown_init channels 2 up down = Inr u"
    and "down \<and> \<not> up \<longrightarrow> 2 \<le> h \<and> 2 \<le> w"
  shows "updown_forward u [N, channels, h, w] = Inr [N, channels, resample up down h, resample up down w]"
  using assms
  by (auto simp: updown_init_def updown_forward_def Upsample_init_def Downsample_init_def
      avg_pool_nd_def down_stride_def ebind_eq_Inr Upsample_forward_def Downsample_forward_def
      interpolate2_def avg_pool_forward_def resample_def pool_half mult.commute
      split: if_splits)

lemma updown_init_flag:
  assumes "updown_init channels 2 up down = Inr u"
  shows "u = UpdIdentity \<longleftrightarrow> \<not> (up \<or> down)"
  using assms by (auto simp: updown_init_def ebind_eq_Inr split: if_splits)

lemma ResBlock_forward_shape:
  fixes channels :: nat
  assumes init: "ResBlock_init norm_ok channels ted oc uc ussn 2 ucp up down = Inr rb"
    and pos: "0 < h" "0 < w"
    and big: "down \<and> \<not> up \<longrightarrow> 2 \<le> h \<and> 2 \<le> w"
  shows "ResBlock_forward rb [N, channels, h, w] [N, ted] =
         Inr [N, or_default oc channels, resample up down h, resample up down w]"
proof -
  define oc' where "oc' = or_default oc channels"
  define h' w' where "h' = resample up down h" and "w' = resample up down w"
  have pos': "0 < h'" "0 < w'"
    using pos big by (auto simp: h'_def w'_def resample_def)
  from init obtain n1 c1 u1 u2 n2 c2 sk where
    n1: "normalization norm_ok channels = Inr n1"
    and c1: "conv_nd 2 channels oc' 3 (replicate 2 1) 1 = Inr c1"
    and u1: "updown_init channels 2 up down = Inr u1"
    and u2: "updown_init channels 2 up down = Inr u2"
    and n2: "normalization norm_ok oc' = Inr n2"
    and c2: "conv_nd 2 oc' oc' 3 (replicate 2 1) 1 = Inr c2"
    and sk: "skip_init 2 channels oc' uc = Inr sk"
    and rb: "rb = \<lparr>rb_channels = channels, rb_emb_channels = ted, rb_out_channels = oc',
             rb_use_conv = uc, rb_use_checkpoint = ucp,
             rb_use_scale_shift_norm = ussn,
             rb_in_norm = n1, rb_in_conv = c1,
             rb_updown = (up \<or> down), rb_h_upd = u1, rb_x_upd = u2,
             rb_emb_linear = linear_nn ted (if ussn then 2 * oc' else oc'),
             rb_out_norm = n2, rb_out_conv = zero_module c2,
             rb_skip_connection = sk\<rparr>"
    unfolding ResBlock_init_def Let_def oc'_def [symmetric]
    by (auto simp: ebind_eq_Inr)
  have skf: "skip_forward sk [N, channels, h', w'] = Inr [N, oc', h', w']"
    using sk pos' by (auto simp: skip_init_def skip_forward_def ebind_eq_Inr
        elim!: conv_ndE split: if_splits)
  have ud1: "updown_forward u1 [N, channels, h, w] = Inr [N, channels, h', w']"
    unfolding h'_def w'_def by (rule updown_forward_shape [OF u1 big])
  have ud2: "updown_forward u2 [N, channels, h, w] = Inr [N, channels, h', w']"
    unfolding h'_def w'_def by (rule updown_forward_shape [OF u2 big])
  have same: "h' = h \<and> w' = w" if "\<not> (up \<or> down)"
    using that by (simp add: h'_def w'_def resample_def)
  have inn: "ResBlock_in rb [N, channels, h, w] = Inr ([N, oc', h', w'], [N, channels, h', w'])"
  proof (cases "up \<or> down")
    case True
    then show ?thesis
      using n1 c1 pos' ud1 ud2
      by (auto simp: rb ResBlock_in_def elim!: conv_ndE normalizationE)
  next
    case False
    then show ?thesis
      using n1 c1 pos same
      by (auto simp: rb ResBlock_in_def elim!: conv_ndE normalizationE)
  qed
  have lin: "linear_forward (rb_emb_linear rb) [N, ted] = Inr [N, if ussn then 2 * oc' else oc']"
    by (simp add: rb linear_forward_def linear_nn_def)
  have out: "ResBlock_out rb [N, oc', h', w']
      (pad_rank [N, if ussn then 2 * oc' else oc'] (length [N, oc', h', w'])) = Inr [N, oc', h', w']"
    using ResBlock_out_shape [where rb=rb and oc=oc' and h=h' and w=w' and N=N] n2 c2 pos'
    by (auto simp: rb zero_module_def simp del: length_Cons list.size elim!: conv_ndE normalizationE)
  have "skip_forward (rb_skip_connection rb) [N, channels, h', w'] = Inr [N, oc', h', w']"
    using skf by (simp add: rb)
  from ResBlock_forward_compose [OF inn lin out this]
  show ?thesis by (simp only: oc'_def h'_def w'_def)
qed

lemma Downsample_forward_shape:
  assumes "Downsample_init channels cr 2 (Some channels) = Inr d"
    and "0 < h" "0 < w" "even h" "even w"
  shows "Downsample_forward d [N, channels, h, w] = Inr [N, channels, h div 2, w div 2]"
proof -
  have "2 \<le> h" "2 \<le> w" using assms by presburger+
  then show ?thesis
    using assms
    by (auto simp: Downsample_init_def Downsample_forward_def down_stride_def avg_pool_nd_def
        avg_pool_forward_def conv_forward_def conv_out_size_def pool_half conv_half
        ebind_eq_Inr Let_def elim!: conv_ndE split: if_splits)
qed

lemma Upsample_forward_shape:
  assumes "Upsample_init channels cr 2 (Some channels) = Inr u"
    and "0 < h" "0 < w"
  shows "Upsample_forward u [N, channels, h, w] = Inr [N, channels, 2 * h, 2 * w]"
  using assms
  by (auto simp: Upsample_init_def Upsample_forward_def interpolate2_def mult.commute
      ebind_eq_Inr Let_def elim!: conv_ndE split: if_splits)

lemma conv_forward_1d:
  assumes "conv_dims c = 1" "conv_in c = a" "conv_kernel c = 1" "conv_stride c = [1]"
    "conv_padding c = 0" "0 < t"
  shows "conv_forward c [N, a, t] = Inr [N, conv_out c, t]"
  using assms by (simp add: conv_forward_def conv_out_size_def)

lemma attention_forward_shape:
  assumes "0 < heads" "heads dvd int c" "0 < c" "0 < N" "0 < t"
    and "attention_heads a = heads"
  shows "attention_forward a [N, c * 3, t] = Inr [N, c, t]"
proof -
  obtain q where q: "int c = heads * q" using assms(2) by (auto simp: dvd_def)
  have qpos: "0 < q" using q assms(1,3) by (metis of_nat_0_less_iff zero_less_mult_pos)
  have w: "int (c * 3) = (3 * heads) * q" using q by simp
  have m: "int (c * 3) mod (3 * heads) = 0" unfolding w by simp
  have d: "int (c * 3) div (3 * heads) = q" unfolding w using assms(1) by simp
  have "nat heads * nat q = c"
    using q assms(1) qpos by (metis nat_int nat_mult_distrib order_less_imp_le)
  then show ?thesis
    using assms m d qpos by (simp add: attention_forward_def qkv_head_width_def)
qed

lemma AttentionBlock_heads_ok:
  fixes channels :: nat and num_heads num_head_channels :: int
  assumes "AttentionBlock_heads channels num_heads num_head_channels = Inr heads"
    and "0 < channels"
    and "if num_head_channels = -1 then 0 < num_heads \<and> num_heads dvd int channels
         else 0 < num_head_channels"
  shows "0 < heads \<and> heads dvd int channels"
proof (cases "num_head_channels = -1")
  case True
  then show ?thesis using assms by (simp add: AttentionBlock_heads_def)
next
  case False
  with assms have nz: "0 < num_head_channels" and md: "int channels mod num_head_channels = 0"
    and h: "heads = int channels div num_head_channels"
    by (auto simp: AttentionBlock_heads_def split: if_splits)
  have eq: "int channels = heads * num_head_channels"
    using md h by (metis add.right_neutral div_mult_mod_eq)
  have "0 < heads"
    using eq nz assms(2) by (metis of_nat_0_less_iff zero_less_mult_pos2)
  then show ?thesis using eq by simp
qed

lemma AttentionBlock_forward_shape:
  fixes channels :: nat and num_heads num_head_channels :: int
  assumes init: "AttentionBlock_init norm_ok channels num_heads num_head_channels ucp unao = Inr ab"
    and pos: "0 < channels" "0 < N" "0 < h" "0 < w"
    and heads: "if num_head_channels = -1 then 0 < num_heads \<and> num_heads dvd int channels
         else 0 < num_head_channels"
  shows "AttentionBlock_forward ab [N, channels, h, w] = Inr [N, channels, h, w]"
proof -
  from init obtain hd n1 c1 c2 where
    hd: "AttentionBlock_heads channels num_heads num_head_channels = Inr hd"
    and n1: "normalization norm_ok channels = Inr n1"
    and c1: "conv_nd 1 channels (channels * 3) 1 [1] 0 = Inr c1"
    and c2: "conv_nd 1 channels channels 1 [1] 0 = Inr c2"
    and ab: "ab = \<lparr>ab_channels = channels, ab_num_heads = hd, ab_use_checkpoint = ucp,
            ab_norm = n1, ab_qkv = c1,
            ab_attention = (if unao then QKVAttention hd else QKVAttentionLegacy hd),
            ab_proj_out = zero_module c2\<rparr>"
    unfolding AttentionBlock_init_def by (auto simp: ebind_eq_Inr)
  have hok: "0 < hd" "hd dvd int channels"
    using AttentionBlock_heads_ok [OF hd pos(1) heads] by simp_all
  have t: "0 < h * w" using pos by simp
  have ah: "attention_heads (ab_attention ab) = hd"
    by (simp add: ab attention_heads_def)
  have att: "attention_forward (ab_attention ab) [N, channels * 3, h * w] = Inr [N, channels, h * w]"
    by (rule attention_forward_shape [OF hok pos(1,2) t ah])
  have nf: "normalization_forward (ab_norm ab) [N, channels, h * w] = Inr [N, channels, h * w]"
    using n1 by (auto simp: ab normalization_forward_def elim!: normalizationE)
  have q: "conv_forward (ab_qkv ab) [N, channels, h * w] = Inr [N, channels * 3, h * w]"
    using t by (intro conv_forward_1d [THEN trans]) (simp_all add: ab conv_nd_eq [OF c1])
  have p: "conv_forward (ab_proj_out ab) [N, channels, h * w] = Inr [N, channels, h * w]"
    using t by (intro conv_forward_1d [THEN trans])
      (simp_all add: ab conv_nd_eq [OF c2] zero_module_def)
  have x3: "[[N, channels, h, w] ! 0, [N, channels, h, w] ! 1,
      prod_list (drop 2 [N, channels, h, w])] = [N, channels, h * w]"
    by simp
  have nz: "[N, channels, h, w] ! 0 * [N, channels, h, w] ! 1 \<noteq> 0"
    using pos by simp
  have pl: "prod_list [N, channels, h * w] = prod_list [N, channels, h, w]"
    by simp
  show ?thesis
    unfolding AttentionBlock_forward_def Let_def x3
    by (simp only: nz nf q att p pl ebind_Inr tensor_add_same if_False if_True
        length_Cons list.size) simp
qed

section \<open>Unfolding the constructor\<close>

lemma enc_res_blocks_SucE:
  assumes "enc_res_blocks norm_ok cfg mult (Suc k) st = Inr st'"
  obtains rb attn where
    "ResBlock_init norm_ok (b_ch st) (time_embed_dim cfg) (Some (mult * model_channels cfg))
       False (use_scale_shift_norm cfg) (dims cfg) (use_checkpoint cfg) False False = Inr rb"
    and "b_ds st \<in> attention_resolutions cfg \<Longrightarrow>
         \<exists>ab. AttentionBlock_init norm_ok (mult * model_channels cfg) (num_heads cfg)
                  (num_head_channels cfg) (use_checkpoint cfg) (use_new_attention_order cfg)
                  = Inr ab \<and> attn = [AttentionL ab]"
    and "b_ds st \<notin> attention_resolutions cfg \<Longrightarrow> attn = []"
    and "enc_res_blocks norm_ok cfg mult k
       (st\<lparr>b_blocks := b_blocks st @ [\<lparr>stage_ds = b_ds st, stage_layers = ResBlockL rb # attn\<rparr>],
           b_ch := mult * model_channels cfg,
           b_chans := mult * model_channels cfg # b_chans st,
           b_feature_size := b_feature_size st + mult * model_channels cfg\<rparr>) = Inr st'"
proof -
  from assms obtain rb layers where
    rb: "ResBlock_init norm_ok (b_ch st) (time_embed_dim cfg) (Some (mult * model_channels cfg))
       False (use_scale_shift_norm cfg) (dims cfg) (use_checkpoint cfg) False False = Inr rb"
    and l: "(if b_ds st \<in> attention_resolutions cfg then
              ebind (AttentionBlock_init norm_ok (mult * model_channels cfg) (num_heads cfg)
                       (num_head_channels cfg) (use_checkpoint cfg) (use_new_attention_order cfg))
                (\<lambda>ab. Inr [ResBlockL rb, AttentionL ab])
            else Inr [ResBlockL rb]) = Inr layers"
    and r: "enc_res_blocks norm_ok cfg mult k
       (st\<lparr>b_blocks := b_blocks st @ [\<lparr>stage_ds = b_ds st, stage_layers = layers\<rparr>],
           b_ch := mult * model_channels cfg,
           b_chans := mult * model_channels cfg # b_chans st,
           b_feature_size := b_feature_size st + mult * model_channels cfg\<rparr>) = Inr st'"
    by (auto simp: ebind_eq_Inr Let_def)
  show thesis
  proof (cases "b_ds st \<in> attention_resolutions cfg")
    case True
    with l obtain ab where ab: "AttentionBlock_init norm_ok (mult * model_channels cfg)
        (num_heads cfg) (num_head_channels cfg) (use_checkpoint cfg)
        (use_new_attention_order cfg) = Inr ab" and "layers = ResBlockL rb # [AttentionL ab]"
      by (auto simp: ebind_eq_Inr)
    with True rb r show thesis by (intro that [of rb "[AttentionL ab]"]) auto
  next
    case False
    with l have "layers = ResBlockL rb # []" by simp
    with False rb r show thesis by (intro that [of rb "[]"]) auto
  qed
qed

lemma enc_downsampleE:
  assumes "enc_downsample norm_ok cfg st = Inr st'"
  obtains l where
    "resblock_updown cfg \<Longrightarrow>
       \<exists>rb. ResBlock_init norm_ok (b_ch st) (time_embed_dim cfg) (Some (b_ch st)) False
                 (use_scale_shift_norm cfg) (dims cfg) (use_checkpoint cfg) False True = Inr rb
               \<and> l = ResBlockL rb"
    and "\<not> resblock_updown cfg \<Longrightarrow>
       \<exists>d. Downsample_init (b_ch st) (conv_resample cfg) (dims cfg) (Some (b_ch st)) = Inr d
               \<and> l = DownsampleL d"
    and "st' = st\<lparr>b_blocks := b_blocks st @ [\<lparr>stage_ds = b_ds st, stage_layers = [l]\<rparr>],
                b_ch := b_ch st,
                b_chans := b_ch st # b_chans st,
                b_ds := b_ds st * 2,
                b_feature_size := b_feature_size st + b_ch st\<rparr>"
proof (cases "resblock_updown cfg")
  case True
  with assms obtain rb where
    "ResBlock_init norm_ok (b_ch st) (time_embed_dim cfg) (Some (b_ch st)) False
       (use_scale_shift_norm cfg) (dims cfg) (use_checkpoint cfg) False True = Inr rb"
    and "st' = st\<lparr>b_blocks := b_blocks st @ [\<lparr>stage_ds = b_ds st, stage_layers = [ResBlockL rb]\<rparr>],
                b_ch := b_ch st,
                b_chans := b_ch st # b_chans st,
                b_ds := b_ds st * 2,
                b_feature_size := b_feature_size st + b_ch st\<rparr>"
    by (auto simp: enc_downsample_def ebind_eq_Inr Let_def)
  with True show thesis by (intro that [of "ResBlockL rb"]) auto
next
  case False
  with assms obtain d where
    "Downsample_init (b_ch st) (conv_resample cfg) (dims cfg) (Some (b_ch st)) = Inr d"
    and "st' = st\<lparr>b_blocks := b_blocks st @ [\<lparr>stage_ds = b_ds st, stage_layers = [DownsampleL d]\<rparr>],
                b_ch := b_ch st,
                b_chans := b_ch st # b_chans st,
                b_ds := b_ds st * 2,
                b_feature_size := b_feature_size st + b_ch st\<rparr>"
    by (auto simp: enc_downsample_def ebind_eq_Inr Let_def)
  with False show thesis by (intro that [of "DownsampleL d"]) auto
qed

lemma enc_levels_ConsE:
  assumes "enc_levels norm_ok cfg ((level, mult) # rest) st = Inr st'"
  obtains st1 st2 where
    "enc_res_blocks norm_ok cfg mult (num_res_blocks cfg) st = Inr st1"
    and "int level \<noteq> int (length (channel_mult cfg)) - 1 \<Longrightarrow>
           enc_downsample norm_ok cfg st1 = Inr st2"
    and "int level = int (length (channel_mult cfg)) - 1 \<Longrightarrow> st2 = st1"
    and "enc_levels norm_ok cfg rest st2 = Inr st'"
proof -
  from assms obtain st1 st2 where
    a: "enc_res_blocks norm_ok cfg mult (num_res_blocks cfg) st = Inr st1"
    and b: "(if int level \<noteq> int (length (channel_mult cfg)) - 1
            then enc_downsample norm_ok cfg st1 else Inr st1) = Inr st2"
    and c: "enc_levels norm_ok cfg rest st2 = Inr st'"
    by (auto simp: ebind_eq_Inr)
  show thesis
    using a b c by (intro that [of st1 st2]) (auto split: if_splits)
qed

lemma dec_blocks_SucE:
  assumes "dec_blocks norm_ok cfg level mult (Suc k) st = Inr st'"
  obtains ich chans rb attn upl where
    "b_chans st = ich # chans"
    and "ResBlock_init norm_ok (b_ch st + ich) (time_embed_dim cfg)
           (Some (model_channels cfg * mult)) False (use_scale_shift_norm cfg)
           (dims cfg) (use_checkpoint cfg) False False = Inr rb"
    and "b_ds st \<in> attention_resolutions cfg \<Longrightarrow>
         \<exists>ab. AttentionBlock_init norm_ok (model_channels cfg * mult) (heads_upsample cfg)
                  (num_head_channels cfg) (use_checkpoint cfg) (use_new_attention_order cfg)
                  = Inr ab \<and> attn = [AttentionL ab]"
    and "b_ds st \<notin> attention_resolutions cfg \<Longrightarrow> attn = []"
    and "level \<noteq> 0 \<and> k = 0 \<Longrightarrow> resblock_updown cfg \<Longrightarrow>
           \<exists>rb'. ResBlock_init norm_ok (model_channels cfg * mult) (time_embed_dim cfg)
                      (Some (model_channels cfg * mult)) False (use_scale_shift_norm cfg)
                      (dims cfg) (use_checkpoint cfg) True False = Inr rb'
                    \<and> upl = [ResBlockL rb']"
    and "level \<noteq> 0 \<and> k = 0 \<Longrightarrow> \<not> resblock_updown cfg \<Longrightarrow>
           \<exists>u. Upsample_init (model_channels cfg * mult) (conv_resample cfg) (dims cfg)
                      (Some (model_channels cfg * mult)) = Inr u
                    \<and> upl = [UpsampleL u]"
    and "\<not> (level \<noteq> 0 \<and> k = 0) \<Longrightarrow> upl = []"
    and "dec_blocks norm_ok cfg level mult k
           (st\<lparr>b_blocks := b_blocks st @
                  [\<lparr>stage_ds = b_ds st, stage_layers = ResBlockL rb # attn @ upl\<rparr>],
               b_ch := model_channels cfg * mult,
               b_chans := chans,
               b_ds := (if level \<noteq> 0 \<and> k = 0 then b_ds st div 2 else b_ds st),
               b_feature_size := b_feature_size st + model_channels cfg * mult\<rparr>) = Inr st'"
proof -
  from assms obtain ich chans where c: "b_chans st = ich # chans"
    by (cases "b_chans st") simp_all
  define ch where "ch = model_channels cfg * mult"
  from assms [unfolded dec_blocks.simps Let_def] obtain rb layers layers' ds' where
    rb: "ResBlock_init norm_ok (b_ch st + ich) (time_embed_dim cfg)
           (Some ch) False (use_scale_shift_norm cfg)
           (dims cfg) (use_checkpoint cfg) False False = Inr rb"
    and l: "(if b_ds st \<in> attention_resolutions cfg then
               ebind (AttentionBlock_init norm_ok ch (heads_upsample cfg)
                        (num_head_channels cfg) (use_checkpoint cfg)
                        (use_new_attention_order cfg)) (\<lambda>ab. Inr [ResBlockL rb, AttentionL ab])
             else Inr [ResBlockL rb]) = Inr layers"
    and u: "(if level \<noteq> 0 \<and> k = 0 then
               ebind (if resblock_updown cfg then
                        ebind (ResBlock_init norm_ok ch (time_embed_dim cfg) (Some ch)
                                 False (use_scale_shift_norm cfg) (dims cfg)
                                 (use_checkpoint cfg) True False)
                          (\<lambda>rb. Inr (ResBlockL rb))
                      else
                        ebind (Upsample_init ch (conv_resample cfg) (dims cfg) (Some ch))
                          (\<lambda>u. Inr (UpsampleL u))) (\<lambda>l. Inr (layers @ [l], b_ds st div 2))
             else Inr (layers, b_ds st)) = Inr (layers', ds')"
    and r: "dec_blocks norm_ok cfg level mult k
            (st\<lparr>b_blocks := b_blocks st @ [\<lparr>stage_ds = b_ds st, stage_layers = layers'\<rparr>],
                b_ch := ch,
                b_chans := chans,
                b_ds := ds',
                b_feature_size := b_feature_size st + ch\<rparr>) = Inr st'"
    unfolding ch_def by (auto simp: c ebind_eq_Inr Let_def simp del: neq0_conv)
  obtain attn where
    a1: "b_ds st \<in> attention_resolutions cfg \<Longrightarrow>
         \<exists>ab. AttentionBlock_init norm_ok ch (heads_upsample cfg)
                  (num_head_channels cfg) (use_checkpoint cfg) (use_new_attention_order cfg)
                  = Inr ab \<and> attn = [AttentionL ab]"
    and a2: "b_ds st \<notin> attention_resolutions cfg \<Longrightarrow> attn = []"
    and la: "layers = ResBlockL rb # attn"
  proof (cases "b_ds st \<in> attention_resolutions cfg")
    case True
    with l obtain ab where "AttentionBlock_init norm_ok ch (heads_upsample cfg)
        (num_head_channels cfg) (use_checkpoint cfg) (use_new_attention_order cfg) = Inr ab"
      and "layers = ResBlockL rb # [AttentionL ab]"
      by (auto simp: ebind_eq_Inr)
    with True show thesis by (intro that [of "[AttentionL ab]"]) auto
  next
    case False
    with l show thesis by (intro that [of "[]"]) auto
  qed
  obtain upl where
    u1: "level \<noteq> 0 \<and> k = 0 \<Longrightarrow> resblock_updown cfg \<Longrightarrow>
           \<exists>rb'. ResBlock_init norm_ok ch (time_embed_dim cfg) (Some ch) False
                   (use_scale_shift_norm cfg) (dims cfg) (use_checkpoint cfg) True False = Inr rb'
                    \<and> upl = [ResBlockL rb']"
    and u2: "level \<noteq> 0 \<and> k = 0 \<Longrightarrow> \<not> resblock_updown cfg \<Longrightarrow>
           \<exists>u. Upsample_init ch (conv_resample cfg) (dims cfg) (Some ch) = Inr u
                    \<and> upl = [UpsampleL u]"
    and u3: "\<not> (level \<noteq> 0 \<and> k = 0) \<Longrightarrow> upl = []"
    and lu: "layers' = layers @ upl"
    and ds': "ds' = (if level \<noteq> 0 \<and> k = 0 then b_ds st div 2 else b_ds st)"
  proof (cases "level \<noteq> 0 \<and> k = 0")
    case False
    with u show thesis by (intro that [of "[]"]) auto
  next
    case lk: True
    show thesis
    proof (cases "resblock_updown cfg")
      case True
      with lk u obtain rb' where "ResBlock_init norm_ok ch (time_embed_dim cfg) (Some ch) False
          (use_scale_shift_norm cfg) (dims cfg) (use_checkpoint cfg) True False = Inr rb'"
        and "layers' = layers @ [ResBlockL rb']" and "ds' = b_ds st div 2"
        by (auto simp: ebind_eq_Inr)
      with True lk show thesis by (intro that [of "[ResBlockL rb']"]) auto
    next
      case False
      with lk u obtain up where "Upsample_init ch (conv_resample cfg) (dims cfg) (Some ch) = Inr up"
        and "layers' = layers @ [UpsampleL up]" and "ds' = b_ds st div 2"
        by (auto simp: ebind_eq_Inr)
      with False lk show thesis by (intro that [of "[UpsampleL up]"]) auto
    qed
  qed
  show thesis
    using c rb a1 a2 u1 u2 u3 r
    unfolding la lu ds' ch_def
    by (intro that [of ich chans rb attn upl]) simp_all
qed

lemma dec_levels_ConsE:
  assumes "dec_levels norm_ok cfg ((level, mult) # rest) st = Inr st'"
  obtains st1 where
    "dec_blocks norm_ok cfg level mult (num_res_blocks cfg + 1) st = Inr st1"
    and "dec_levels norm_ok cfg rest st1 = Inr st'"
  using assms by (auto simp: ebind_eq_Inr)

lemma EchoDNDUNet_initE:
  assumes "EchoDNDUNet_init norm_ok cfg = Inr m"
  obtains enc mid dec og ob where
    "build_encoder norm_ok cfg = Inr enc"
    and "build_middle norm_ok cfg enc = Inr mid"
    and "build_decoder norm_ok cfg enc = Inr dec"
    and "build_out norm_ok cfg (b_ch dec) (out_channels_gaussian cfg) = Inr og"
    and "build_out norm_ok cfg (b_ch dec) (out_channels_bernoulli cfg) = Inr ob"
    and "input_blocks_gaussian m = b_blocks enc" "input_blocks_bernoulli m = b_blocks enc"
    and "middle_block_gaussian m = mid" "middle_block_bernoulli m = mid"
    and "output_blocks_gaussian m = b_blocks dec" "output_blocks_bernoulli m = b_blocks dec"
    and "out_gaussian m = og" "out_bernoulli m = ob"
    and "u_num_classes m = num_classes cfg" "u_model_channels m = model_channels cfg"
    and "time_embed m = (linear_nn (model_channels cfg) (time_embed_dim cfg),
                          linear_nn (time_embed_dim cfg) (time_embed_dim cfg))"
    and "mfcm m = (if high_way cfg
                    then Some \<lparr>hr_in_ch = int (in_channels cfg) - 1, hr_out_ch = 1,
                               hr_mid_ch = 32, hr_num_stage = 4\<rparr>
                    else None)"
proof -
  from assms obtain enc mid dec og ob where
    a: "build_encoder norm_ok cfg = Inr enc"
    "build_middle norm_ok cfg enc = Inr mid"
    "build_decoder norm_ok cfg enc = Inr dec"
    "build_out norm_ok cfg (b_ch dec) (out_channels_gaussian cfg) = Inr og"
    "build_out norm_ok cfg (b_ch dec) (out_channels_bernoulli cfg) = Inr ob"
    and m: "m = \<lparr>u_image_size = image_size cfg,
            u_in_channels = in_channels cfg,
            u_model_channels = model_channels cfg,
            u_num_res_blocks = num_res_blocks cfg,
            u_attention_resolutions = attention_resolutions cfg,
            u_channel_mult = channel_mult cfg,
            u_conv_resample = conv_resample cfg,
            u_num_classes = num_classes cfg,
            u_use_checkpoint = use_checkpoint cfg,
            u_use_fp16 = use_fp16 cfg,
            u_num_heads = num_heads cfg,
            u_num_head_channels = num_head_channels cfg,
            u_num_heads_upsample = heads_upsample cfg,
            time_embed = (linear_nn (model_channels cfg) (time_embed_dim cfg),
                          linear_nn (time_embed_dim cfg) (time_embed_dim cfg)),
            label_emb = (case num_classes cfg of None \<Rightarrow> None
                         | Some n \<Rightarrow> Some (n, time_embed_dim cfg)),
            input_blocks_gaussian = b_blocks enc,
            middle_block_gaussian = mid,
            output_blocks_gaussian = b_blocks dec,
            out_gaussian = og,
            input_blocks_bernoulli = deepcopy (b_blocks enc),
            middle_block_bernoulli = deepcopy mid,
            output_blocks_bernoulli = deepcopy (b_blocks dec),
            out_bernoulli = ob,
            mfcm = (if high_way cfg
                    then Some \<lparr>hr_in_ch = int (in_channels cfg) - 1, hr_out_ch = 1,
                               hr_mid_ch = 32, hr_num_stage = 4\<rparr>
                    else None),
            u_feature_size = b_feature_size dec\<rparr>"
    unfolding EchoDNDUNet_init_def by (auto simp: ebind_eq_Inr)
  show thesis
    by (rule that [OF a]) (simp_all add: m deepcopy_def)
qed

section \<open>What the ladders look like\<close>

lemma enc_res_blocks_props:
  assumes "enc_res_blocks norm_ok cfg mult k st = Inr st'"
  shows "b_ds st' = b_ds st"
    and "b_chans st' = replicate k (mult * model_channels cfg) @ b_chans st"
    and "b_ch st' = (if k = 0 then b_ch st else mult * model_channels cfg)"
    and "map stage_ds (b_blocks st') = map stage_ds (b_blocks st) @ replicate k (b_ds st)"
  using assms
proof (induction k arbitrary: st)
  case 0
  {
    case 1 then show ?case by simp
  next
    case 2 then show ?case by simp
  next
    case 3 then show ?case by simp
  next
    case 4 then show ?case by simp
  }
next
  case (Suc k)
  {
    case 1
    then show ?case by (elim enc_res_blocks_SucE) (use Suc.IH(1) in force)
  next
    case 2
    then show ?case
      by (elim enc_res_blocks_SucE) (use Suc.IH(2) in \<open>force simp: replicate_app_Cons_same\<close>)
  next
    case 3
    then show ?case
      by (elim enc_res_blocks_SucE) (use Suc.IH(3) in \<open>force split: if_splits\<close>)
  next
    case 4
    then show ?case
      by (elim enc_res_blocks_SucE)
        (use Suc.IH(4) Suc.IH(1) in \<open>force simp: replicate_app_Cons_same\<close>)
  }
qed


lemma enc_downsample_props:
  assumes "enc_downsample norm_ok cfg st = Inr st'"
  shows "b_ds st' = b_ds st * 2"
    and "b_chans st' = b_ch st # b_chans st"
    and "b_ch st' = b_ch st"
    and "map stage_ds (b_blocks st') = map stage_ds (b_blocks st) @ [b_ds st]"
  using assms by - (erule enc_downsampleE, simp)+

lemma enc_levels_props:
  assumes "enc_levels norm_ok cfg (enumerate i ys) st = Inr st'"
    and "i + length ys = length (channel_mult cfg)"
  shows "b_ds st' = b_ds st * 2 ^ (length ys - 1) \<and>
    length (b_chans st') =
      length (b_chans st) + length ys * num_res_blocks cfg + (length ys - 1) \<and>
    map stage_ds (b_blocks st') =
      map stage_ds (b_blocks st) @ enc_ds (num_res_blocks cfg) (b_ds st) (length ys)"
  using assms
proof (induction ys arbitrary: i st)
  case Nil
  then show ?case by simp
next
  case (Cons y ys)
  from Cons.prems(1) have "enc_levels norm_ok cfg ((i, y) # enumerate (Suc i) ys) st = Inr st'"
    by simp
  then obtain st1 st2 where
    r: "enc_res_blocks norm_ok cfg y (num_res_blocks cfg) st = Inr st1"
    and d: "int i \<noteq> int (length (channel_mult cfg)) - 1 \<Longrightarrow>
           enc_downsample norm_ok cfg st1 = Inr st2"
    and nd: "int i = int (length (channel_mult cfg)) - 1 \<Longrightarrow> st2 = st1"
    and l: "enc_levels norm_ok cfg (enumerate (Suc i) ys) st2 = Inr st'"
    by - (erule enc_levels_ConsE, blast)
  note p1 = enc_res_blocks_props [OF r]
  have len: "Suc i + length ys = length (channel_mult cfg)"
    using Cons.prems(2) by simp
  note ih = Cons.IH [OF l len]
  show ?case
  proof (cases "ys = []")
    case True
    then have "int i = int (length (channel_mult cfg)) - 1" using len by simp
    then have "st2 = st1" by (rule nd)
    with True l have "st' = st1" by simp
    with True p1 show ?thesis by simp
  next
    case False
    then have "int i \<noteq> int (length (channel_mult cfg)) - 1" using len by (cases ys) auto
    then have "enc_downsample norm_ok cfg st1 = Inr st2" by (rule d)
    note p2 = enc_downsample_props [OF this]
    from False obtain r where lr: "length ys = Suc r" by (cases ys) auto
    have a: "b_ds st' = b_ds st * 2 ^ (length (y # ys) - 1)"
      using ih p1(1) p2(1) by (simp add: lr)
    have b: "length (b_chans st') =
      length (b_chans st) + length (y # ys) * num_res_blocks cfg + (length (y # ys) - 1)"
      using ih p1(2) p2(2) by (simp add: lr)
    have c: "map stage_ds (b_blocks st') =
      map stage_ds (b_blocks st) @ enc_ds (num_res_blocks cfg) (b_ds st) (length (y # ys))"
      using ih p1(1,4) p2(1,4) by (simp add: lr)
    from a b c show ?thesis by (intro conjI)
  qed
qed

lemma dec_blocks_SucE':
  assumes "dec_blocks norm_ok cfg level mult (Suc k) st = Inr st'"
  obtains ich chans st2 where
    "b_chans st = ich # chans"
    and "dec_blocks norm_ok cfg level mult k st2 = Inr st'"
    and "b_chans st2 = chans" and "b_ch st2 = model_channels cfg * mult"
    and "b_ds st2 = (if level \<noteq> 0 \<and> k = 0 then b_ds st div 2 else b_ds st)"
    and "map stage_ds (b_blocks st2) = map stage_ds (b_blocks st) @ [b_ds st]"
proof -
  from assms show thesis
  proof (rule dec_blocks_SucE)
    fix ich chans rb attn upl
    assume c: "b_chans st = ich # chans"
      and r: "dec_blocks norm_ok cfg level mult k
           (st\<lparr>b_blocks := b_blocks st @
                  [\<lparr>stage_ds = b_ds st, stage_layers = ResBlockL rb # attn @ upl\<rparr>],
               b_ch := model_channels cfg * mult,
               b_chans := chans,
               b_ds := (if level \<noteq> 0 \<and> k = 0 then b_ds st div 2 else b_ds st),
               b_feature_size := b_feature_size st + model_channels cfg * mult\<rparr>) = Inr st'"
    show thesis
      by (rule that [OF c r]) simp_all
  qed
qed

lemma dec_blocks_props:
  assumes "dec_blocks norm_ok cfg level mult k st = Inr st'"
  shows "k \<le> length (b_chans st) \<and>
    b_chans st' = drop k (b_chans st) \<and>
    b_ds st' = (if level \<noteq> 0 \<and> k \<noteq> 0 then b_ds st div 2 else b_ds st) \<and>
    b_ch st' = (if k = 0 then b_ch st else model_channels cfg * mult) \<and>
    map stage_ds (b_blocks st') = map stage_ds (b_blocks st) @ replicate k (b_ds st)"
  using assms
proof (induction k arbitrary: st)
  case 0
  then show ?case by simp
next
  case (Suc k)
  from Suc.prems obtain ich chans st2 where
    c: "b_chans st = ich # chans"
    and r: "dec_blocks norm_ok cfg level mult k st2 = Inr st'"
    and st2: "b_chans st2 = chans" "b_ch st2 = model_channels cfg * mult"
      "b_ds st2 = (if level \<noteq> 0 \<and> k = 0 then b_ds st div 2 else b_ds st)"
      "map stage_ds (b_blocks st2) = map stage_ds (b_blocks st) @ [b_ds st]"
    by (rule dec_blocks_SucE')
  note ih = Suc.IH [OF r]
  have a: "Suc k \<le> length (b_chans st)"
    using ih st2(1) c by simp
  have b: "b_chans st' = drop (Suc k) (b_chans st)"
    using ih st2(1) c by simp
  have d: "b_ds st' = (if level \<noteq> 0 \<and> Suc k \<noteq> 0 then b_ds st div 2 else b_ds st)"
    using ih st2(3) by (cases "k = 0") simp_all
  have e: "b_ch st' = (if Suc k = 0 then b_ch st else model_channels cfg * mult)"
    using ih st2(2) by simp
  have f: "map stage_ds (b_blocks st') = map stage_ds (b_blocks st) @ replicate (Suc k) (b_ds st)"
    using ih st2(3,4) by (cases "k = 0") (simp_all add: replicate_app_Cons_same)
  from a b d e f show ?case by (intro conjI)
qed

lemma rev_enumerate_snoc:
  "rev (enumerate 0 (xs @ [x])) = (length xs, x) # rev (enumerate 0 xs)"
  by (simp add: enumerate_append_eq)

lemma dec_levels_props:
  assumes "dec_levels norm_ok cfg (rev (enumerate 0 xs)) st = Inr st'"
  shows "length xs * (num_res_blocks cfg + 1) \<le> length (b_chans st) \<and>
    b_chans st' = drop (length xs * (num_res_blocks cfg + 1)) (b_chans st) \<and>
    b_ch st' = (if xs = [] then b_ch st else model_channels cfg * hd xs) \<and>
    map stage_ds (b_blocks st') =
      map stage_ds (b_blocks st) @ dec_ds (num_res_blocks cfg) (b_ds st) (length xs)"
  using assms
proof (induction xs arbitrary: st rule: rev_induct)
  case Nil
  then show ?case by simp
next
  case (snoc x xs)
  from snoc.prems obtain st1 where
    b: "dec_blocks norm_ok cfg (length xs) x (num_res_blocks cfg + 1) st = Inr st1"
    and l: "dec_levels norm_ok cfg (rev (enumerate 0 xs)) st1 = Inr st'"
    unfolding rev_enumerate_snoc by (elim dec_levels_ConsE)
  note p = dec_blocks_props [OF b]
  note ih = snoc.IH [OF l]
  have a: "length (xs @ [x]) * (num_res_blocks cfg + 1) \<le> length (b_chans st)"
  proof -
    have "num_res_blocks cfg + 1 \<le> length (b_chans st)"
      using p by simp
    moreover have "length xs * (num_res_blocks cfg + 1)
        \<le> length (b_chans st) - (num_res_blocks cfg + 1)"
      using p ih by simp
    ultimately have "length xs * (num_res_blocks cfg + 1) + (num_res_blocks cfg + 1)
        \<le> length (b_chans st)"
      by linarith
    then show ?thesis by simp
  qed
  have b': "b_chans st' = drop (length (xs @ [x]) * (num_res_blocks cfg + 1)) (b_chans st)"
    using p ih by (simp add: ac_simps)
  have c: "b_ch st' = (if xs @ [x] = [] then b_ch st else model_channels cfg * hd (xs @ [x]))"
    using p ih by (cases xs) simp_all
  have d: "map stage_ds (b_blocks st') =
      map stage_ds (b_blocks st) @ dec_ds (num_res_blocks cfg) (b_ds st) (length (xs @ [x]))"
    using p ih by (cases xs) simp_all
  from a b' c d show ?case by (intro conjI)
qed

section \<open>Every stage is well formed\<close>

lemma ResBlock_init_fields:
  assumes "ResBlock_init norm_ok ch ted oc uc ussn d ucp up down = Inr rb"
  shows "rb_updown rb = (up \<or> down)" and "rb_channels rb = ch"
    and "rb_out_channels rb = or_default oc ch"
  using assms by (auto simp: ResBlock_init_def Let_def ebind_eq_Inr)

lemma Downsample_init_fields:
  assumes "Downsample_init ch cr d oc = Inr dd"
  shows "down_channels dd = ch" and "down_out_channels dd = or_default oc ch"
  using assms by (auto simp: Downsample_init_def Let_def ebind_eq_Inr split: if_splits)

lemma Upsample_init_fields:
  assumes "Upsample_init ch cr d oc = Inr u"
  shows "up_channels u = ch" and "up_out_channels u = or_default oc ch"
  using assms by (auto simp: Upsample_init_def Let_def ebind_eq_Inr split: if_splits)

lemma stage_ok_residual:
  assumes "\<not> rb_updown rb"
    and "ds \<in> attention_resolutions cfg \<Longrightarrow> \<exists>ab. attn = [AttentionL ab]"
    and "ds \<notin> attention_resolutions cfg \<Longrightarrow> attn = []"
    and "upl = [] \<or> (\<exists>u. upl = [UpsampleL u] \<and> up_out_channels u = up_channels u) \<or>
         (\<exists>r. upl = [ResBlockL r] \<and> rb_out_channels r = rb_channels r)"
  shows "stage_ok cfg \<lparr>stage_ds = ds, stage_layers = ResBlockL rb # attn @ upl\<rparr>"
proof (cases "ds \<in> attention_resolutions cfg")
  case True
  with assms(2) obtain ab where "attn = [AttentionL ab]" by blast
  with True assms(1,4) show ?thesis
    by (auto simp: stage_ok_def has_attention_def residual_stage_def)
next
  case False
  with assms(3) have "attn = []" by blast
  with False assms(1,4) show ?thesis
    by (auto simp: stage_ok_def has_attention_def residual_stage_def)
qed

lemma stage_ok_transition:
  assumes "(\<exists>d. l = DownsampleL d \<and> down_out_channels d = down_channels d) \<or>
         (\<exists>r. l = ResBlockL r \<and> rb_updown r \<and> rb_out_channels r = rb_channels r)"
  shows "stage_ok cfg \<lparr>stage_ds = ds, stage_layers = [l]\<rparr>"
  using assms by (auto simp: stage_ok_def has_attention_def residual_stage_def)

lemma enc_res_blocks_stage_ok:
  assumes "enc_res_blocks norm_ok cfg mult k st = Inr st'"
    and "list_all (stage_ok cfg) (b_blocks st)"
  shows "list_all (stage_ok cfg) (b_blocks st')"
  using assms
proof (induction k arbitrary: st)
  case 0
  then show ?case by simp
next
  case (Suc k)
  from Suc.prems(1) show ?case
  proof (rule enc_res_blocks_SucE)
    fix rb attn
    assume rb: "ResBlock_init norm_ok (b_ch st) (time_embed_dim cfg)
        (Some (mult * model_channels cfg)) False (use_scale_shift_norm cfg) (dims cfg)
        (use_checkpoint cfg) False False = Inr rb"
      and a1: "b_ds st \<in> attention_resolutions cfg \<Longrightarrow>
         \<exists>ab. AttentionBlock_init norm_ok (mult * model_channels cfg) (num_heads cfg)
                  (num_head_channels cfg) (use_checkpoint cfg) (use_new_attention_order cfg)
                  = Inr ab \<and> attn = [AttentionL ab]"
      and a2: "b_ds st \<notin> attention_resolutions cfg \<Longrightarrow> attn = []"
      and r: "enc_res_blocks norm_ok cfg mult k
       (st\<lparr>b_blocks := b_blocks st @ [\<lparr>stage_ds = b_ds st, stage_layers = ResBlockL rb # attn\<rparr>],
           b_ch := mult * model_channels cfg,
           b_chans := mult * model_channels cfg # b_chans st,
           b_feature_size := b_feature_size st + mult * model_channels cfg\<rparr>) = Inr st'"
    have "stage_ok cfg \<lparr>stage_ds = b_ds st, stage_layers = ResBlockL rb # attn @ []\<rparr>"
      using ResBlock_init_fields(1) [OF rb] a1 a2
      by (intro stage_ok_residual) auto
    with Suc.prems(2) show ?thesis
      by (intro Suc.IH [OF r]) simp
  qed
qed

lemma enc_downsample_stage_ok:
  assumes "enc_downsample norm_ok cfg st = Inr st'"
    and "list_all (stage_ok cfg) (b_blocks st)"
  shows "list_all (stage_ok cfg) (b_blocks st')"
  using assms(1)
proof (rule enc_downsampleE)
  fix l
  assume a: "resblock_updown cfg \<Longrightarrow>
       \<exists>rb. ResBlock_init norm_ok (b_ch st) (time_embed_dim cfg) (Some (b_ch st)) False
                 (use_scale_shift_norm cfg) (dims cfg) (use_checkpoint cfg) False True = Inr rb
               \<and> l = ResBlockL rb"
    and b: "\<not> resblock_updown cfg \<Longrightarrow>
       \<exists>d. Downsample_init (b_ch st) (conv_resample cfg) (dims cfg) (Some (b_ch st)) = Inr d
               \<and> l = DownsampleL d"
    and st': "st' = st\<lparr>b_blocks := b_blocks st @ [\<lparr>stage_ds = b_ds st, stage_layers = [l]\<rparr>],
                b_ch := b_ch st,
                b_chans := b_ch st # b_chans st,
                b_ds := b_ds st * 2,
                b_feature_size := b_feature_size st + b_ch st\<rparr>"
  have "stage_ok cfg \<lparr>stage_ds = b_ds st, stage_layers = [l]\<rparr>"
  proof (cases "resblock_updown cfg")
    case True
    with a obtain rb where "ResBlock_init norm_ok (b_ch st) (time_embed_dim cfg) (Some (b_ch st))
        False (use_scale_shift_norm cfg) (dims cfg) (use_checkpoint cfg) False True = Inr rb"
      and "l = ResBlockL rb" by blast
    with ResBlock_init_fields [OF this(1)] show ?thesis
      by (intro stage_ok_transition) (simp add: or_default_def)
  next
    case False
    with b obtain d where "Downsample_init (b_ch st) (conv_resample cfg) (dims cfg)
        (Some (b_ch st)) = Inr d" and "l = DownsampleL d" by blast
    with Downsample_init_fields [OF this(1)] show ?thesis
      by (intro stage_ok_transition) (simp add: or_default_def)
  qed
  with assms(2) show ?thesis by (simp add: st')
qed

lemma enc_levels_stage_ok:
  assumes "enc_levels norm_ok cfg lvls st = Inr st'"
    and "list_all (stage_ok cfg) (b_blocks st)"
  shows "list_all (stage_ok cfg) (b_blocks st')"
  using assms
proof (induction lvls arbitrary: st)
  case Nil
  then show ?case by simp
next
  case (Cons lm rest)
  obtain level mult where lm: "lm = (level, mult)" by (cases lm)
  from Cons.prems(1) [unfolded lm] show ?case
  proof (rule enc_levels_ConsE)
    fix st1 st2
    assume r: "enc_res_blocks norm_ok cfg mult (num_res_blocks cfg) st = Inr st1"
      and d: "int level \<noteq> int (length (channel_mult cfg)) - 1 \<Longrightarrow>
           enc_downsample norm_ok cfg st1 = Inr st2"
      and nd: "int level = int (length (channel_mult cfg)) - 1 \<Longrightarrow> st2 = st1"
      and l: "enc_levels norm_ok cfg rest st2 = Inr st'"
    have 1: "list_all (stage_ok cfg) (b_blocks st1)"
      by (rule enc_res_blocks_stage_ok [OF r Cons.prems(2)])
    have "list_all (stage_ok cfg) (b_blocks st2)"
    proof (cases "int level = int (length (channel_mult cfg)) - 1")
      case True
      with nd 1 show ?thesis by simp
    next
      case False
      with d have "enc_downsample norm_ok cfg st1 = Inr st2" by simp
      from enc_downsample_stage_ok [OF this 1] show ?thesis .
    qed
    then show ?thesis by (rule Cons.IH [OF l])
  qed
qed

lemma dec_blocks_stage_ok:
  assumes "dec_blocks norm_ok cfg level mult k st = Inr st'"
    and "list_all (stage_ok cfg) (b_blocks st)"
  shows "list_all (stage_ok cfg) (b_blocks st')"
  using assms
proof (induction k arbitrary: st)
  case 0
  then show ?case by simp
next
  case (Suc k)
  from Suc.prems(1) show ?case
  proof (rule dec_blocks_SucE)
    fix ich chans rb attn upl
    assume rb: "ResBlock_init norm_ok (b_ch st + ich) (time_embed_dim cfg)
           (Some (model_channels cfg * mult)) False (use_scale_shift_norm cfg)
           (dims cfg) (use_checkpoint cfg) False False = Inr rb"
      and a1: "b_ds st \<in> attention_resolutions cfg \<Longrightarrow>
         \<exists>ab. AttentionBlock_init norm_ok (model_channels cfg * mult) (heads_upsample cfg)
                  (num_head_channels cfg) (use_checkpoint cfg) (use_new_attention_order cfg)
                  = Inr ab \<and> attn = [AttentionL ab]"
      and a2: "b_ds st \<notin> attention_resolutions cfg \<Longrightarrow> attn = []"
      and u1: "level \<noteq> 0 \<and> k = 0 \<Longrightarrow> resblock_updown cfg \<Longrightarrow>
           \<exists>rb'. ResBlock_init norm_ok (model_channels cfg * mult) (time_embed_dim cfg)
                      (Some (model_channels cfg * mult)) False (use_scale_shift_norm cfg)
                      (dims cfg) (use_checkpoint cfg) True False = Inr rb'
                    \<and> upl = [ResBlockL rb']"
      and u2: "level \<noteq> 0 \<and> k = 0 \<Longrightarrow> \<not> resblock_updown cfg \<Longrightarrow>
           \<exists>u. Upsample_init (model_channels cfg * mult) (conv_resample cfg) (dims cfg)
                      (Some (model_channels cfg * mult)) = Inr u
                    \<and> upl = [UpsampleL u]"
      and u3: "\<not> (level \<noteq> 0 \<and> k = 0) \<Longrightarrow> upl = []"
      and r: "dec_blocks norm_ok cfg level mult k
           (st\<lparr>b_blocks := b_blocks st @
                  [\<lparr>stage_ds = b_ds st, stage_layers = ResBlockL rb # attn @ upl\<rparr>],
               b_ch := model_channels cfg * mult,
               b_chans := chans,
               b_ds := (if level \<noteq> 0 \<and> k = 0 then b_ds st div 2 else b_ds st),
               b_feature_size := b_feature_size st + model_channels cfg * mult\<rparr>) = Inr st'"
    have up: "upl = [] \<or> (\<exists>u. upl = [UpsampleL u] \<and> up_out_channels u = up_channels u) \<or>
         (\<exists>r. upl = [ResBlockL r] \<and> rb_out_channels r = rb_channels r)"
    proof (cases "level \<noteq> 0 \<and> k = 0")
      case False
      with u3 show ?thesis by simp
    next
      case lk: True
      show ?thesis
      proof (cases "resblock_updown cfg")
        case True
        from u1 [OF lk True] obtain rb' where
          i: "ResBlock_init norm_ok (model_channels cfg * mult) (time_embed_dim cfg)
                (Some (model_channels cfg * mult)) False (use_scale_shift_norm cfg)
                (dims cfg) (use_checkpoint cfg) True False = Inr rb'"
          and "upl = [ResBlockL rb']" by blast
        with ResBlock_init_fields [OF i] show ?thesis by (simp add: or_default_def)
      next
        case False
        from u2 [OF lk False] obtain u where
          i: "Upsample_init (model_channels cfg * mult) (conv_resample cfg) (dims cfg)
                (Some (model_channels cfg * mult)) = Inr u"
          and "upl = [UpsampleL u]" by blast
        with Upsample_init_fields [OF i] show ?thesis by (simp add: or_default_def)
      qed
    qed
    have "stage_ok cfg \<lparr>stage_ds = b_ds st, stage_layers = ResBlockL rb # attn @ upl\<rparr>"
      using ResBlock_init_fields(1) [OF rb] a1 a2 up
      by (intro stage_ok_residual) auto
    with Suc.prems(2) show ?thesis
      by (intro Suc.IH [OF r]) simp
  qed
qed

lemma dec_levels_stage_ok:
  assumes "dec_levels norm_ok cfg lvls st = Inr st'"
    and "list_all (stage_ok cfg) (b_blocks st)"
  shows "list_all (stage_ok cfg) (b_blocks st')"
  using assms
proof (induction lvls arbitrary: st)
  case Nil
  then show ?case by simp
next
  case (Cons lm rest)
  obtain level mult where lm: "lm = (level, mult)" by (cases lm)
  from Cons.prems(1) [unfolded lm] show ?case
  proof (rule dec_levels_ConsE)
    fix st1
    assume b: "dec_blocks norm_ok cfg level mult (num_res_blocks cfg + 1) st = Inr st1"
      and l: "dec_levels norm_ok cfg rest st1 = Inr st'"
    from dec_blocks_stage_ok [OF b Cons.prems(2)] show ?thesis
      by (rule Cons.IH [OF l])
  qed
qed

lemma build_encoder_stage_ok:
  assumes "build_encoder norm_ok cfg = Inr enc"
  shows "list_all (stage_ok cfg) (b_blocks enc)"
proof -
  from assms obtain c where
    l: "enc_levels norm_ok cfg (enumerate 0 (channel_mult cfg))
         \<lparr>b_blocks = [\<lparr>stage_ds = 1, stage_layers = [ConvL c]\<rparr>],
          b_ch = model_channels cfg, b_ds = 1, b_chans = [model_channels cfg],
          b_feature_size = model_channels cfg\<rparr> = Inr enc"
    by (auto simp: build_encoder_def ebind_eq_Inr)
  show ?thesis
    by (rule enc_levels_stage_ok [OF l])
      (simp add: stage_ok_def has_attention_def residual_stage_def)
qed

lemma build_decoder_stage_ok:
  assumes "build_decoder norm_ok cfg enc = Inr dec"
  shows "list_all (stage_ok cfg) (b_blocks dec)"
  by (rule dec_levels_stage_ok [OF assms [unfolded build_decoder_def]]) simp

section \<open>When the constructor returns\<close>

lemma ResBlock_init_total:
  assumes "norm_ok ch" "norm_ok (or_default oc ch)" "d = 1 \<or> d = 2 \<or> d = 3"
  shows "\<exists>rb. ResBlock_init norm_ok ch ted oc uc ussn d ucp up down = Inr rb"
  using assms
  by (simp add: ResBlock_init_def normalization_def conv_nd_def updown_init_def
      Upsample_init_def Downsample_init_def avg_pool_nd_def skip_init_def Let_def)

lemma AttentionBlock_init_total:
  assumes "norm_ok ch"
  shows "\<exists>ab. AttentionBlock_init norm_ok ch h (- 1) ucp unao = Inr ab"
  using assms
  by (simp add: AttentionBlock_init_def AttentionBlock_heads_def normalization_def conv_nd_def)

lemma Downsample_init_total:
  assumes "d = 1 \<or> d = 2 \<or> d = 3"
  shows "\<exists>dd. Downsample_init ch cr d (Some ch) = Inr dd"
  using assms
  by (simp add: Downsample_init_def conv_nd_def avg_pool_nd_def Let_def)

lemma Upsample_init_total:
  assumes "d = 1 \<or> d = 2 \<or> d = 3"
  shows "\<exists>u. Upsample_init ch cr d oc = Inr u"
  using assms
  by (simp add: Upsample_init_def conv_nd_def Let_def)

lemma or_default_dvd:
  assumes "m dvd ch" shows "m dvd or_default (Some (k * m)) ch" "m dvd or_default (Some (m * k)) ch"
  using assms by (simp_all add: or_default_def)

lemma enc_res_blocks_total:
  assumes "constructible norm_ok cfg" "model_channels cfg dvd b_ch st"
  shows "\<exists>st'. enc_res_blocks norm_ok cfg mult k st = Inr st'"
  using assms(2)
proof (induction k arbitrary: st)
  case 0
  then show ?case by simp
next
  case (Suc k)
  let ?mc = "model_channels cfg"
  from assms(1) have n: "\<And>c. ?mc dvd c \<Longrightarrow> norm_ok c"
    and d: "dims cfg = 1 \<or> dims cfg = 2 \<or> dims cfg = 3" and h: "num_head_channels cfg = - 1"
    by (auto simp: constructible_def)
  obtain rb where rb: "ResBlock_init norm_ok (b_ch st) (time_embed_dim cfg)
      (Some (mult * ?mc)) False (use_scale_shift_norm cfg) (dims cfg)
      (use_checkpoint cfg) False False = Inr rb"
    using ResBlock_init_total [of norm_ok "b_ch st", OF n [OF Suc.prems]
        n [OF or_default_dvd(1) [OF Suc.prems]] d]
    by blast
  obtain ab where ab: "AttentionBlock_init norm_ok (mult * ?mc) (num_heads cfg)
      (num_head_channels cfg) (use_checkpoint cfg) (use_new_attention_order cfg) = Inr ab"
  proof -
    have "norm_ok (mult * ?mc)" by (rule n) simp
    from AttentionBlock_init_total [of norm_ok "mult * ?mc", OF this] show thesis
      unfolding h [symmetric] by (blast intro: that)
  qed
  define st2 where "st2 layers = st\<lparr>b_blocks := b_blocks st @
        [\<lparr>stage_ds = b_ds st, stage_layers = layers\<rparr>],
      b_ch := mult * ?mc, b_chans := mult * ?mc # b_chans st,
      b_feature_size := b_feature_size st + mult * ?mc\<rparr>" for layers
  have step: "\<exists>st'. enc_res_blocks norm_ok cfg mult k (st2 layers) = Inr st'" for layers
    by (rule Suc.IH) (simp add: st2_def)
  have "enc_res_blocks norm_ok cfg mult (Suc k) st =
      enc_res_blocks norm_ok cfg mult k
        (st2 (if b_ds st \<in> attention_resolutions cfg then [ResBlockL rb, AttentionL ab]
              else [ResBlockL rb]))"
    by (simp add: rb ab Let_def st2_def)
  then show ?case using step by simp
qed

lemma enc_downsample_total:
  assumes "constructible norm_ok cfg" "model_channels cfg dvd b_ch st"
  shows "\<exists>st'. enc_downsample norm_ok cfg st = Inr st'"
proof -
  from assms(1) have n: "\<And>c. model_channels cfg dvd c \<Longrightarrow> norm_ok c"
    and d: "dims cfg = 1 \<or> dims cfg = 2 \<or> dims cfg = 3"
    by (auto simp: constructible_def)
  obtain rb where rb: "ResBlock_init norm_ok (b_ch st) (time_embed_dim cfg)
      (Some (b_ch st)) False (use_scale_shift_norm cfg) (dims cfg)
      (use_checkpoint cfg) False True = Inr rb"
  proof -
    have "norm_ok (or_default (Some (b_ch st)) (b_ch st))"
      using n [OF assms(2)] by (simp add: or_default_def)
    from ResBlock_init_total [of norm_ok "b_ch st", OF n [OF assms(2)] this d] show thesis
      by (blast intro: that)
  qed
  obtain dd where dd: "Downsample_init (b_ch st) (conv_resample cfg) (dims cfg)
      (Some (b_ch st)) = Inr dd"
    using Downsample_init_total [OF d] by blast
  show ?thesis
    by (simp add: enc_downsample_def rb dd Let_def)
qed

lemma enc_levels_total:
  assumes "constructible norm_ok cfg" "model_channels cfg dvd b_ch st"
  shows "\<exists>st'. enc_levels norm_ok cfg lvls st = Inr st'"
  using assms(2)
proof (induction lvls arbitrary: st)
  case Nil
  then show ?case by simp
next
  case (Cons lm rest)
  obtain level mult where lm: "lm = (level, mult)" by (cases lm)
  obtain st1 where r: "enc_res_blocks norm_ok cfg mult (num_res_blocks cfg) st = Inr st1"
    using enc_res_blocks_total [OF assms(1) Cons.prems] by blast
  have c1: "model_channels cfg dvd b_ch st1"
    using enc_res_blocks_props(3) [OF r] Cons.prems by simp
  obtain st2 where d: "enc_downsample norm_ok cfg st1 = Inr st2"
    using enc_downsample_total [OF assms(1) c1] by blast
  have c2: "model_channels cfg dvd b_ch st2"
    using enc_downsample_props(3) [OF d] c1 by simp
  show ?case
    using Cons.IH [OF c1] Cons.IH [OF c2]
    by (simp add: lm r d)
qed

lemma enc_res_blocks_dvd:
  assumes "enc_res_blocks norm_ok cfg mult k st = Inr st'"
    and "\<forall>c\<in>set (b_ch st # b_chans st). model_channels cfg dvd c"
  shows "\<forall>c\<in>set (b_ch st' # b_chans st'). model_channels cfg dvd c"
  using enc_res_blocks_props(2,3) [OF assms(1)] assms(2) by auto

lemma enc_levels_dvd:
  assumes "enc_levels norm_ok cfg lvls st = Inr st'"
    and "\<forall>c\<in>set (b_ch st # b_chans st). model_channels cfg dvd c"
  shows "\<forall>c\<in>set (b_ch st' # b_chans st'). model_channels cfg dvd c"
  using assms
proof (induction lvls arbitrary: st)
  case Nil
  then show ?case by simp
next
  case (Cons lm rest)
  obtain level mult where lm: "lm = (level, mult)" by (cases lm)
  from Cons.prems(1) [unfolded lm] show ?case
  proof (rule enc_levels_ConsE)
    fix st1 st2
    assume r: "enc_res_blocks norm_ok cfg mult (num_res_blocks cfg) st = Inr st1"
      and d: "int level \<noteq> int (length (channel_mult cfg)) - 1 \<Longrightarrow>
           enc_downsample norm_ok cfg st1 = Inr st2"
      and nd: "int level = int (length (channel_mult cfg)) - 1 \<Longrightarrow> st2 = st1"
      and l: "enc_levels norm_ok cfg rest st2 = Inr st'"
    note 1 = enc_res_blocks_dvd [OF r Cons.prems(2)]
    have "\<forall>c\<in>set (b_ch st2 # b_chans st2). model_channels cfg dvd c"
    proof (cases "int level = int (length (channel_mult cfg)) - 1")
      case True
      with nd 1 show ?thesis by simp
    next
      case False
      with d have "enc_downsample norm_ok cfg st1 = Inr st2" by simp
      from enc_downsample_props(2,3) [OF this] 1 show ?thesis by simp
    qed
    then show ?thesis by (rule Cons.IH [OF l])
  qed
qed

lemma dec_blocks_total:
  assumes "constructible norm_ok cfg"
    and "\<forall>c\<in>set (b_ch st # b_chans st). model_channels cfg dvd c"
    and "k \<le> length (b_chans st)"
  shows "\<exists>st'. dec_blocks norm_ok cfg level mult k st = Inr st' \<and>
     (\<forall>c\<in>set (b_ch st' # b_chans st'). model_channels cfg dvd c)"
  using assms(2,3)
proof (induction k arbitrary: st)
  case 0
  then show ?case by simp
next
  case (Suc k)
  let ?mc = "model_channels cfg"
  from assms(1) have n: "\<And>c. ?mc dvd c \<Longrightarrow> norm_ok c"
    and d: "dims cfg = 1 \<or> dims cfg = 2 \<or> dims cfg = 3" and h: "num_head_channels cfg = - 1"
    by (auto simp: constructible_def)
  from Suc.prems(2) obtain ich chans where c: "b_chans st = ich # chans"
    by (cases "b_chans st") auto
  have dv: "?mc dvd b_ch st + ich" using Suc.prems(1) c by simp
  obtain rb where rb: "ResBlock_init norm_ok (b_ch st + ich) (time_embed_dim cfg)
      (Some (?mc * mult)) False (use_scale_shift_norm cfg) (dims cfg)
      (use_checkpoint cfg) False False = Inr rb"
    using ResBlock_init_total [of norm_ok "b_ch st + ich", OF n [OF dv]
        n [OF or_default_dvd(2) [OF dv]] d]
    by blast
  obtain ab where ab: "AttentionBlock_init norm_ok (?mc * mult) (heads_upsample cfg)
      (num_head_channels cfg) (use_checkpoint cfg) (use_new_attention_order cfg) = Inr ab"
  proof -
    have "norm_ok (?mc * mult)" by (rule n) simp
    from AttentionBlock_init_total [of norm_ok "?mc * mult", OF this] show thesis
      unfolding h [symmetric] by (blast intro: that)
  qed
  obtain rb' where rb': "ResBlock_init norm_ok (?mc * mult) (time_embed_dim cfg)
      (Some (?mc * mult)) False (use_scale_shift_norm cfg) (dims cfg)
      (use_checkpoint cfg) True False = Inr rb'"
  proof -
    have a: "norm_ok (?mc * mult)" by (rule n) simp
    then have "norm_ok (or_default (Some (?mc * mult)) (?mc * mult))"
      by (simp add: or_default_def)
    from ResBlock_init_total [of norm_ok "?mc * mult", OF a this d] show thesis
      by (blast intro: that)
  qed
  obtain u where u: "Upsample_init (?mc * mult) (conv_resample cfg) (dims cfg)
      (Some (?mc * mult)) = Inr u"
    using Upsample_init_total [OF d] by blast
  have pre: "\<forall>c\<in>set (?mc * mult # chans). ?mc dvd c"
    using Suc.prems(1) c by simp
  have len: "k \<le> length chans" using Suc.prems(2) c by simp
  define st2 where "st2 layers ds = st\<lparr>b_blocks := b_blocks st @
        [\<lparr>stage_ds = b_ds st, stage_layers = layers\<rparr>],
      b_ch := ?mc * mult, b_chans := chans, b_ds := ds,
      b_feature_size := b_feature_size st + ?mc * mult\<rparr>" for layers ds
  have step: "\<exists>st'. dec_blocks norm_ok cfg level mult k (st2 layers ds) = Inr st' \<and>
     (\<forall>c\<in>set (b_ch st' # b_chans st'). ?mc dvd c)" for layers ds
    by (rule Suc.IH) (simp_all add: st2_def pre [simplified] len)
  have "dec_blocks norm_ok cfg level mult (Suc k) st =
      dec_blocks norm_ok cfg level mult k
        (st2 ((if b_ds st \<in> attention_resolutions cfg then [ResBlockL rb, AttentionL ab]
               else [ResBlockL rb]) @
              (if level \<noteq> 0 \<and> k = 0
               then [if resblock_updown cfg then ResBlockL rb' else UpsampleL u] else []))
           (if level \<noteq> 0 \<and> k = 0 then b_ds st div 2 else b_ds st))"
    by (simp add: c rb ab rb' u Let_def st2_def del: neq0_conv)
  then show ?case using step by simp
qed


lemma dec_levels_total:
  assumes "constructible norm_ok cfg"
    and "\<forall>c\<in>set (b_ch st # b_chans st). model_channels cfg dvd c"
    and "length lvls * (num_res_blocks cfg + 1) \<le> length (b_chans st)"
  shows "\<exists>st'. dec_levels norm_ok cfg lvls st = Inr st' \<and> model_channels cfg dvd b_ch st'"
  using assms(2,3)
proof (induction lvls arbitrary: st)
  case Nil
  then show ?case by simp
next
  case (Cons lm rest)
  obtain level mult where lm: "lm = (level, mult)" by (cases lm)
  have "num_res_blocks cfg + 1 \<le> length (b_chans st)"
    using Cons.prems(2) by simp
  from dec_blocks_total [OF assms(1) Cons.prems(1) this]
  obtain st1 where b: "dec_blocks norm_ok cfg level mult (num_res_blocks cfg + 1) st = Inr st1"
    and dv: "\<forall>c\<in>set (b_ch st1 # b_chans st1). model_channels cfg dvd c"
    by blast
  have "b_chans st1 = drop (num_res_blocks cfg + 1) (b_chans st)"
    using dec_blocks_props [OF b] by simp
  then have "length rest * (num_res_blocks cfg + 1) \<le> length (b_chans st1)"
    using Cons.prems(2) by simp
  from Cons.IH [OF dv this] show ?case
    unfolding lm dec_levels.simps b ebind_Inr .
qed

lemma build_encoder_total:
  assumes "constructible norm_ok cfg"
  shows "\<exists>enc. build_encoder norm_ok cfg = Inr enc"
proof -
  from assms have d: "dims cfg = 1 \<or> dims cfg = 2 \<or> dims cfg = 3"
    by (simp add: constructible_def)
  then obtain c where c: "conv_nd (dims cfg) (in_channels cfg) (model_channels cfg) 3
      (replicate (dims cfg) 1) 1 = Inr c"
    by (auto simp: conv_nd_def)
  show ?thesis
    unfolding build_encoder_def c ebind_Inr
    by (rule enc_levels_total [OF assms]) simp
qed

lemma build_encoder_result:
  assumes "build_encoder norm_ok cfg = Inr enc"
  shows "\<forall>c\<in>set (b_ch enc # b_chans enc). model_channels cfg dvd c"
    and "length (b_chans enc) =
      1 + length (channel_mult cfg) * num_res_blocks cfg + (length (channel_mult cfg) - 1)"
    and "map stage_ds (b_blocks enc) =
      1 # enc_ds (num_res_blocks cfg) 1 (length (channel_mult cfg))"
    and "b_ds enc = 2 ^ (length (channel_mult cfg) - 1)"
proof -
  from assms obtain c where
    l: "enc_levels norm_ok cfg (enumerate 0 (channel_mult cfg))
         \<lparr>b_blocks = [\<lparr>stage_ds = 1, stage_layers = [ConvL c]\<rparr>],
          b_ch = model_channels cfg, b_ds = 1, b_chans = [model_channels cfg],
          b_feature_size = model_channels cfg\<rparr> = Inr enc"
    by (auto simp: build_encoder_def ebind_eq_Inr)
  show "\<forall>c\<in>set (b_ch enc # b_chans enc). model_channels cfg dvd c"
    by (rule enc_levels_dvd [OF l]) simp
  from enc_levels_props [OF l]
  show "length (b_chans enc) =
      1 + length (channel_mult cfg) * num_res_blocks cfg + (length (channel_mult cfg) - 1)"
    and "map stage_ds (b_blocks enc) =
      1 # enc_ds (num_res_blocks cfg) 1 (length (channel_mult cfg))"
    and "b_ds enc = 2 ^ (length (channel_mult cfg) - 1)"
    by simp_all
qed

lemma ledger_covers_decoder:
  assumes "build_encoder norm_ok cfg = Inr enc"
  shows "length (channel_mult cfg) * (num_res_blocks cfg + 1) \<le> length (b_chans enc)"
proof (cases "channel_mult cfg")
  case Nil
  then show ?thesis by simp
next
  case (Cons a list)
  then show ?thesis
    using build_encoder_result(2) [OF assms] by simp
qed

lemma EchoDNDUNet_init_total:
  assumes "constructible norm_ok cfg"
  shows "\<exists>m. EchoDNDUNet_init norm_ok cfg = Inr m"
proof -
  let ?mc = "model_channels cfg"
  from assms have n: "\<And>c. ?mc dvd c \<Longrightarrow> norm_ok c"
    and d: "dims cfg = 1 \<or> dims cfg = 2 \<or> dims cfg = 3" and h: "num_head_channels cfg = - 1"
    by (auto simp: constructible_def)
  obtain enc where enc: "build_encoder norm_ok cfg = Inr enc"
    using build_encoder_total [OF assms] by blast
  note dv = build_encoder_result(1) [OF enc]
  have nch: "norm_ok (b_ch enc)" using dv by (intro n) simp
  obtain r1 where r1: "ResBlock_init norm_ok (b_ch enc) (time_embed_dim cfg) None False
      (use_scale_shift_norm cfg) (dims cfg) (use_checkpoint cfg) False False = Inr r1"
  proof -
    have "norm_ok (or_default None (b_ch enc))" using nch by (simp add: or_default_def)
    from ResBlock_init_total [of norm_ok "b_ch enc", OF nch this d] show thesis
      by (blast intro: that)
  qed
  obtain ab where ab: "AttentionBlock_init norm_ok (b_ch enc) (num_heads cfg)
      (num_head_channels cfg) (use_checkpoint cfg) (use_new_attention_order cfg) = Inr ab"
    using AttentionBlock_init_total [of norm_ok "b_ch enc", OF nch]
    unfolding h [symmetric] by blast
  have mid: "\<exists>mid. build_middle norm_ok cfg enc = Inr mid"
    by (simp add: build_middle_def r1 ab)
  have "\<exists>dec. build_decoder norm_ok cfg enc = Inr dec \<and> ?mc dvd b_ch dec"
    unfolding build_decoder_def
    by (rule dec_levels_total [OF assms]) (use dv ledger_covers_decoder [OF enc] in simp_all)
  then obtain dec where dec: "build_decoder norm_ok cfg enc = Inr dec"
    and dvd: "?mc dvd b_ch dec" by blast
  have out: "\<exists>p. build_out norm_ok cfg (b_ch dec) oc = Inr p" for oc
    using n [OF dvd] d by (auto simp: build_out_def normalization_def conv_nd_def)
  from mid obtain m where m: "build_middle norm_ok cfg enc = Inr m" by blast
  from out obtain og where og: "build_out norm_ok cfg (b_ch dec) (out_channels_gaussian cfg) = Inr og"
    by blast
  from out obtain ob where ob: "build_out norm_ok cfg (b_ch dec) (out_channels_bernoulli cfg) = Inr ob"
    by blast
  show ?thesis
    by (simp add: EchoDNDUNet_init_def enc m dec og ob)
qed

lemma example_constructible:
  assumes "model_channels cfg = 32" "dims cfg = 2" "num_head_channels cfg = - 1"
  shows "constructible example_norm_ok cfg"
  using assms by (auto simp: constructible_def example_norm_ok_def)

section \<open>Which stages are residual stages\<close>

lemma build_decoder_result:
  assumes "build_encoder norm_ok cfg = Inr enc" "build_decoder norm_ok cfg enc = Inr dec"
  shows "b_chans dec = drop (length (channel_mult cfg) * (num_res_blocks cfg + 1)) (b_chans enc)"
    and "map stage_ds (b_blocks dec) =
      dec_ds (num_res_blocks cfg) (2 ^ (length (channel_mult cfg) - 1)) (length (channel_mult cfg))"
    and "b_ch dec = (if channel_mult cfg = [] then b_ch enc
                     else model_channels cfg * hd (channel_mult cfg))"
  using dec_levels_props [OF assms(2) [unfolded build_decoder_def]]
    build_encoder_result(4) [OF assms(1)]
  by simp_all

lemma enc_res_blocks_kinds:
  assumes "enc_res_blocks norm_ok cfg mult k st = Inr st'"
  shows "map residual_stage (b_blocks st') = map residual_stage (b_blocks st) @ replicate k True"
  using assms
proof (induction k arbitrary: st)
  case 0
  then show ?case by simp
next
  case (Suc k)
  from Suc.prems show ?case
  proof (rule enc_res_blocks_SucE)
    fix rb attn
    assume rb: "ResBlock_init norm_ok (b_ch st) (time_embed_dim cfg)
        (Some (mult * model_channels cfg)) False (use_scale_shift_norm cfg) (dims cfg)
        (use_checkpoint cfg) False False = Inr rb"
      and r: "enc_res_blocks norm_ok cfg mult k
       (st\<lparr>b_blocks := b_blocks st @ [\<lparr>stage_ds = b_ds st, stage_layers = ResBlockL rb # attn\<rparr>],
           b_ch := mult * model_channels cfg,
           b_chans := mult * model_channels cfg # b_chans st,
           b_feature_size := b_feature_size st + mult * model_channels cfg\<rparr>) = Inr st'"
    from Suc.IH [OF r] ResBlock_init_fields(1) [OF rb] show ?thesis
      by (simp add: residual_stage_def replicate_app_Cons_same)
  qed
qed

lemma enc_downsample_kinds:
  assumes "enc_downsample norm_ok cfg st = Inr st'"
  shows "map residual_stage (b_blocks st') = map residual_stage (b_blocks st) @ [False]"
  using assms
proof (rule enc_downsampleE)
  fix l
  assume a: "resblock_updown cfg \<Longrightarrow>
       \<exists>rb. ResBlock_init norm_ok (b_ch st) (time_embed_dim cfg) (Some (b_ch st)) False
                 (use_scale_shift_norm cfg) (dims cfg) (use_checkpoint cfg) False True = Inr rb
               \<and> l = ResBlockL rb"
    and b: "\<not> resblock_updown cfg \<Longrightarrow>
       \<exists>d. Downsample_init (b_ch st) (conv_resample cfg) (dims cfg) (Some (b_ch st)) = Inr d
               \<and> l = DownsampleL d"
    and st': "st' = st\<lparr>b_blocks := b_blocks st @ [\<lparr>stage_ds = b_ds st, stage_layers = [l]\<rparr>],
                b_ch := b_ch st,
                b_chans := b_ch st # b_chans st,
                b_ds := b_ds st * 2,
                b_feature_size := b_feature_size st + b_ch st\<rparr>"
  have "\<not> residual_stage \<lparr>stage_ds = b_ds st, stage_layers = [l]\<rparr>"
  proof (cases "resblock_updown cfg")
    case True
    with a obtain rb where "ResBlock_init norm_ok (b_ch st) (time_embed_dim cfg) (Some (b_ch st))
        False (use_scale_shift_norm cfg) (dims cfg) (use_checkpoint cfg) False True = Inr rb"
      and "l = ResBlockL rb" by blast
    with ResBlock_init_fields(1) [OF this(1)] show ?thesis
      by (simp add: residual_stage_def)
  next
    case False
    with b show ?thesis by (auto simp: residual_stage_def)
  qed
  then show ?thesis by (simp add: st')
qed

lemma enc_levels_kinds:
  assumes "enc_levels norm_ok cfg (enumerate i ys) st = Inr st'"
    and "i + length ys = length (channel_mult cfg)"
  shows "map residual_stage (b_blocks st') =
      map residual_stage (b_blocks st) @ enc_kinds (num_res_blocks cfg) (length ys)"
  using assms
proof (induction ys arbitrary: i st)
  case Nil
  then show ?case by simp
next
  case (Cons y ys)
  from Cons.prems(1) have "enc_levels norm_ok cfg ((i, y) # enumerate (Suc i) ys) st = Inr st'"
    by simp
  then show ?case
  proof (rule enc_levels_ConsE)
    fix st1 st2
    assume r: "enc_res_blocks norm_ok cfg y (num_res_blocks cfg) st = Inr st1"
      and d: "int i \<noteq> int (length (channel_mult cfg)) - 1 \<Longrightarrow>
           enc_downsample norm_ok cfg st1 = Inr st2"
      and nd: "int i = int (length (channel_mult cfg)) - 1 \<Longrightarrow> st2 = st1"
      and l: "enc_levels norm_ok cfg (enumerate (Suc i) ys) st2 = Inr st'"
    note p1 = enc_res_blocks_kinds [OF r]
    have len: "Suc i + length ys = length (channel_mult cfg)"
      using Cons.prems(2) by simp
    note ih = Cons.IH [OF l len]
    show ?thesis
    proof (cases "ys = []")
      case True
      then have "int i = int (length (channel_mult cfg)) - 1" using len by simp
      then have "st2 = st1" by (rule nd)
      with True l have "st' = st1" by simp
      with True p1 show ?thesis by simp
    next
      case False
      then have "int i \<noteq> int (length (channel_mult cfg)) - 1" using len by (cases ys) auto
      then have "enc_downsample norm_ok cfg st1 = Inr st2" by (rule d)
      note p2 = enc_downsample_kinds [OF this]
      from False obtain r where lr: "length ys = Suc r" by (cases ys) auto
      show ?thesis
        using ih p1 p2 by (simp add: lr)
    qed
  qed
qed

lemma dec_blocks_kinds:
  assumes "dec_blocks norm_ok cfg level mult k st = Inr st'"
    and "list_all residual_stage (b_blocks st)"
  shows "list_all residual_stage (b_blocks st')"
  using assms
proof (induction k arbitrary: st)
  case 0
  then show ?case by simp
next
  case (Suc k)
  from Suc.prems(1) show ?case
  proof (rule dec_blocks_SucE)
    fix ich chans rb attn upl
    assume rb: "ResBlock_init norm_ok (b_ch st + ich) (time_embed_dim cfg)
           (Some (model_channels cfg * mult)) False (use_scale_shift_norm cfg)
           (dims cfg) (use_checkpoint cfg) False False = Inr rb"
      and r: "dec_blocks norm_ok cfg level mult k
           (st\<lparr>b_blocks := b_blocks st @
                  [\<lparr>stage_ds = b_ds st, stage_layers = ResBlockL rb # attn @ upl\<rparr>],
               b_ch := model_channels cfg * mult,
               b_chans := chans,
               b_ds := (if level \<noteq> 0 \<and> k = 0 then b_ds st div 2 else b_ds st),
               b_feature_size := b_feature_size st + model_channels cfg * mult\<rparr>) = Inr st'"
    show ?thesis
      using Suc.prems(2) ResBlock_init_fields(1) [OF rb]
      by (intro Suc.IH [OF r]) (simp add: residual_stage_def)
  qed
qed

lemma dec_levels_kinds:
  assumes "dec_levels norm_ok cfg lvls st = Inr st'"
    and "list_all residual_stage (b_blocks st)"
  shows "list_all residual_stage (b_blocks st')"
  using assms
proof (induction lvls arbitrary: st)
  case Nil
  then show ?case by simp
next
  case (Cons lm rest)
  obtain level mult where lm: "lm = (level, mult)" by (cases lm)
  from Cons.prems(1) [unfolded lm] show ?case
  proof (rule dec_levels_ConsE)
    fix st1
    assume b: "dec_blocks norm_ok cfg level mult (num_res_blocks cfg + 1) st = Inr st1"
      and l: "dec_levels norm_ok cfg rest st1 = Inr st'"
    from dec_blocks_kinds [OF b Cons.prems(2)] show ?thesis
      by (rule Cons.IH [OF l])
  qed
qed

lemma build_encoder_kinds:
  assumes "build_encoder norm_ok cfg = Inr enc"
  shows "map residual_stage (b_blocks enc) =
      False # enc_kinds (num_res_blocks cfg) (length (channel_mult cfg))"
proof -
  from assms obtain c where
    l: "enc_levels norm_ok cfg (enumerate 0 (channel_mult cfg))
         \<lparr>b_blocks = [\<lparr>stage_ds = 1, stage_layers = [ConvL c]\<rparr>],
          b_ch = model_channels cfg, b_ds = 1, b_chans = [model_channels cfg],
          b_feature_size = model_channels cfg\<rparr> = Inr enc"
    by (auto simp: build_encoder_def ebind_eq_Inr)
  from enc_levels_kinds [OF l] show ?thesis
    by (simp add: residual_stage_def)
qed

lemma build_decoder_kinds:
  assumes "build_decoder norm_ok cfg enc = Inr dec"
  shows "list_all residual_stage (b_blocks dec)"
  by (rule dec_levels_kinds [OF assms [unfolded build_decoder_def]]) simp

lemma map_attention_zip:
  "map (\<lambda>st. residual_stage st \<and> (stage_ds st = 2 \<or> stage_ds st = 4)) xs =
   map (\<lambda>(r, d). r \<and> (d = 2 \<or> d = 4)) (zip (map residual_stage xs) (map stage_ds xs))"
  by (induction xs) simp_all

section \<open>Attention sits at the configured resolutions\<close>

text \<open>
  Claim C5. With \<^verbatim>\<open>channel_mult=(1,2,4,8)\<close> and \<^verbatim>\<open>attention_resolutions={2,4}\<close>, for any
  number of residual blocks per level: the resolution counter \<^verbatim>\<open>ds\<close> is 1, 2, 4, 8 on
  the four encoder levels (doubled by each downsampling stage) and 8, 4, 2, 1 on the four
  decoder levels (halved by each upsampling); every decoder stage and the stages of the
  encoder's inner loop are residual stages, the stem and the downsampling transitions are
  not; and a stage holds an attention block exactly when it is a residual stage built with
  the counter at 2 or 4, so none does at 1 or 8. Both pathways have the same stages.
\<close>

theorem attention_at_configured_resolutions:
  assumes "EchoDNDUNet_init norm_ok cfg = Inr m"
    and "channel_mult cfg = [1, 2, 4, 8]"
    and "attention_resolutions cfg = {2, 4}"
  shows "map stage_ds (input_blocks_gaussian m) =
           1 # replicate (num_res_blocks cfg) 1 @ 1 # replicate (num_res_blocks cfg) 2 @
           2 # replicate (num_res_blocks cfg) 4 @ 4 # replicate (num_res_blocks cfg) 8 \<and>
         map residual_stage (input_blocks_gaussian m) =
           False # replicate (num_res_blocks cfg) True @
           False # replicate (num_res_blocks cfg) True @
           False # replicate (num_res_blocks cfg) True @
           False # replicate (num_res_blocks cfg) True \<and>
         map stage_ds (output_blocks_gaussian m) =
           replicate (num_res_blocks cfg + 1) 8 @ replicate (num_res_blocks cfg + 1) 4 @
           replicate (num_res_blocks cfg + 1) 2 @ replicate (num_res_blocks cfg + 1) 1 \<and>
         list_all residual_stage (output_blocks_gaussian m) \<and>
         (\<forall>st\<in>set (input_blocks_gaussian m @ output_blocks_gaussian m).
            has_attention st \<longleftrightarrow> residual_stage st \<and> (stage_ds st = 2 \<or> stage_ds st = 4)) \<and>
         input_blocks_bernoulli m = input_blocks_gaussian m \<and>
         output_blocks_bernoulli m = output_blocks_gaussian m"
  using assms(1)
proof (rule EchoDNDUNet_initE)
  fix enc dec
  assume e: "build_encoder norm_ok cfg = Inr enc"
    and d: "build_decoder norm_ok cfg enc = Inr dec"
    and eq: "input_blocks_gaussian m = b_blocks enc" "input_blocks_bernoulli m = b_blocks enc"
      "output_blocks_gaussian m = b_blocks dec" "output_blocks_bernoulli m = b_blocks dec"
  have ok: "list_all (stage_ok cfg) (b_blocks enc)" "list_all (stage_ok cfg) (b_blocks dec)"
    by (rule build_encoder_stage_ok [OF e], rule build_decoder_stage_ok [OF d])
  have a: "map stage_ds (b_blocks enc) =
           1 # replicate (num_res_blocks cfg) 1 @ 1 # replicate (num_res_blocks cfg) 2 @
           2 # replicate (num_res_blocks cfg) 4 @ 4 # replicate (num_res_blocks cfg) 8"
    using build_encoder_result(3) [OF e] by (simp add: assms(2))
  have a': "map residual_stage (b_blocks enc) =
           False # replicate (num_res_blocks cfg) True @
           False # replicate (num_res_blocks cfg) True @
           False # replicate (num_res_blocks cfg) True @
           False # replicate (num_res_blocks cfg) True"
    using build_encoder_kinds [OF e] by (simp add: assms(2))
  have b: "map stage_ds (b_blocks dec) =
           replicate (num_res_blocks cfg + 1) 8 @ replicate (num_res_blocks cfg + 1) 4 @
           replicate (num_res_blocks cfg + 1) 2 @ replicate (num_res_blocks cfg + 1) 1"
    using build_decoder_result(2) [OF e d]
    by (simp add: assms(2))
  note b' = build_decoder_kinds [OF d]
  have c: "\<forall>st\<in>set (b_blocks enc @ b_blocks dec).
            has_attention st \<longleftrightarrow> residual_stage st \<and> (stage_ds st = 2 \<or> stage_ds st = 4)"
    using ok by (auto simp: list_all_iff stage_ok_def assms(3))
  from a a' b b' c show ?thesis
    unfolding eq by simp
qed

theorem attention_at_configured_resolutions_witness:
  "\<exists>m. EchoDNDUNet_init example_norm_ok
         (example_config\<lparr>channel_mult := [1, 2, 4, 8], attention_resolutions := {2, 4}\<rparr>) = Inr m \<and>
       map stage_ds (input_blocks_gaussian m) = [1, 1, 1, 2, 2, 4, 4, 8] \<and>
       map has_attention (input_blocks_gaussian m) =
         [False, False, False, True, False, True, False, False] \<and>
       map stage_ds (output_blocks_gaussian m) = [8, 8, 4, 4, 2, 2, 1, 1] \<and>
       map has_attention (output_blocks_gaussian m) =
         [False, False, True, True, True, True, False, False]"
proof -
  let ?cfg = "example_config\<lparr>channel_mult := [1, 2, 4, 8], attention_resolutions := {2, 4}\<rparr>"
  have "constructible example_norm_ok ?cfg"
    by (rule example_constructible) (simp_all add: example_config_def)
  then obtain m where m: "EchoDNDUNet_init example_norm_ok ?cfg = Inr m"
    using EchoDNDUNet_init_total by blast
  have n: "num_res_blocks ?cfg = 1" by (simp add: example_config_def)
  have cm: "channel_mult ?cfg = [1, 2, 4, 8]" by simp
  have ar: "attention_resolutions ?cfg = {2, 4}" by simp
  note t = attention_at_configured_resolutions [OF m cm ar, unfolded n]
  note t1 = t [THEN conjunct1]
    and t2 = t [THEN conjunct2, THEN conjunct1]
    and t3 = t [THEN conjunct2, THEN conjunct2, THEN conjunct1]
    and rs' = t [THEN conjunct2, THEN conjunct2, THEN conjunct2, THEN conjunct1]
    and att = t [THEN conjunct2, THEN conjunct2, THEN conjunct2, THEN conjunct2, THEN conjunct1]
  have ds: "map stage_ds (input_blocks_gaussian m) = [1, 1, 1, 2, 2, 4, 4, 8]"
    by (simp add: t1)
  have rs: "map residual_stage (input_blocks_gaussian m) =
           [False, True, False, True, False, True, False, True]"
    by (simp add: t2)
  have ds': "map stage_ds (output_blocks_gaussian m) = [8, 8, 4, 4, 2, 2, 1, 1]"
    by (simp add: t3)
  have "map has_attention (input_blocks_gaussian m) =
      map (\<lambda>st. residual_stage st \<and> (stage_ds st = 2 \<or> stage_ds st = 4))
        (input_blocks_gaussian m)"
    by (rule map_cong [OF refl]) (simp add: att)
  also have "\<dots> = [False, False, False, True, False, True, False, False]"
    unfolding map_attention_zip ds rs by simp
  finally have i: "map has_attention (input_blocks_gaussian m) =
      [False, False, False, True, False, True, False, False]" .
  have "map has_attention (output_blocks_gaussian m) =
      map (\<lambda>st. stage_ds st = 2 \<or> stage_ds st = 4) (output_blocks_gaussian m)"
    by (rule map_cong [OF refl]) (use rs' in \<open>simp add: att list_all_iff\<close>)
  also have "\<dots> = map (\<lambda>d. d = 2 \<or> d = 4) (map stage_ds (output_blocks_gaussian m))"
    by (simp add: comp_def)
  also have "\<dots> = [False, False, True, True, True, True, False, False]"
    unfolding ds' by simp
  finally have o: "map has_attention (output_blocks_gaussian m) =
      [False, False, True, True, True, True, False, False]" .
  show ?thesis
    by (rule exI [of _ m]) (simp only: m ds i ds' o simp_thms)
qed

section \<open>The attention constructor rejects an indivisible channel count\<close>

text \<open>
  Claim C8. Whenever a per-head width is configured (\<^verbatim>\<open>num_head_channels != -1\<close>) and
  the channel count of the block is not a multiple of it, the constructor of the attention
  block raises, whatever the other arguments: the divisibility assertion fails, or, for a
  per-head width of zero, the modulo itself divides by zero.
\<close>

theorem AttentionBlock_init_rejects_indivisible:
  fixes channels :: nat and num_heads num_head_channels :: int
    and use_checkpoint use_new_attention_order :: bool
  assumes "num_head_channels \<noteq> -1"
    and "\<not> num_head_channels dvd int channels"
  shows "AttentionBlock_init norm_ok channels num_heads num_head_channels use_checkpoint
           use_new_attention_order =
         Inl (if num_head_channels = 0 then ZeroDivisionError else AssertionError)"
proof -
  have "int channels mod num_head_channels \<noteq> 0" if "num_head_channels \<noteq> 0"
    using assms(2) by (simp add: dvd_eq_mod_eq_0)
  then have "AttentionBlock_heads channels num_heads num_head_channels =
      Inl (if num_head_channels = 0 then ZeroDivisionError else AssertionError)"
    using assms(1) by (simp add: AttentionBlock_heads_def)
  then show ?thesis
    by (simp add: AttentionBlock_init_def)
qed

theorem AttentionBlock_init_rejects_indivisible_witness:
  "(4::int) \<noteq> -1 \<and> \<not> (4::int) dvd int 10 \<and>
   AttentionBlock_init (\<lambda>c. True) 10 1 4 False False = Inl AssertionError"
proof -
  have a: "(4::int) \<noteq> -1" by simp
  have b: "\<not> (4::int) dvd int 10" by presburger
  show ?thesis
    using a b AttentionBlock_init_rejects_indivisible [OF a b, of "\<lambda>c. True" 1 False False]
    by simp
qed

section \<open>Resampling transitions keep the channel count\<close>

text \<open>
  Claim C10. In every backbone the constructor returns, and in both pathways, every
  resampling layer of the encoder and decoder ladders (a plain downsampling or upsampling
  unit, or a residual block built with \<^verbatim>\<open>down=True\<close> or \<^verbatim>\<open>up=True\<close>) declares as many
  output channels as input channels: the constructor passes \<^verbatim>\<open>out_ch = ch\<close>. This holds
  for either value of \<^verbatim>\<open>resblock_updown\<close>.
\<close>

theorem resampling_preserves_channels:
  assumes "EchoDNDUNet_init norm_ok cfg = Inr m"
  shows "\<forall>st\<in>set (input_blocks_gaussian m @ output_blocks_gaussian m @
                  input_blocks_bernoulli m @ output_blocks_bernoulli m).
           \<forall>l\<in>set (stage_layers st). \<forall>i out. resampling_io l = Some (i, out) \<longrightarrow> out = i"
  using assms
proof (rule EchoDNDUNet_initE)
  fix enc dec
  assume e: "build_encoder norm_ok cfg = Inr enc"
    and d: "build_decoder norm_ok cfg enc = Inr dec"
    and eq: "input_blocks_gaussian m = b_blocks enc" "input_blocks_bernoulli m = b_blocks enc"
      "output_blocks_gaussian m = b_blocks dec" "output_blocks_bernoulli m = b_blocks dec"
  have "list_all (stage_ok cfg) (b_blocks enc)" "list_all (stage_ok cfg) (b_blocks dec)"
    by (rule build_encoder_stage_ok [OF e], rule build_decoder_stage_ok [OF d])
  then show ?thesis
    unfolding eq by (fastforce simp: list_all_iff stage_ok_def)
qed

theorem resampling_preserves_channels_witness:
  "\<exists>m. EchoDNDUNet_init example_norm_ok (example_config\<lparr>resblock_updown := True\<rparr>) = Inr m \<and>
     list_all (\<lambda>st. list_all (\<lambda>l. case resampling_io l of None \<Rightarrow> True
                                   | Some (i, out) \<Rightarrow> out = i) (stage_layers st))
       (input_blocks_gaussian m @ output_blocks_gaussian m)"
proof -
  have "constructible example_norm_ok (example_config\<lparr>resblock_updown := True\<rparr>)"
    by (rule example_constructible) (simp_all add: example_config_def)
  then obtain m where
    m: "EchoDNDUNet_init example_norm_ok (example_config\<lparr>resblock_updown := True\<rparr>) = Inr m"
    using EchoDNDUNet_init_total by blast
  from resampling_preserves_channels [OF m] have
    "list_all (\<lambda>st. list_all (\<lambda>l. case resampling_io l of None \<Rightarrow> True
                                   | Some (i, out) \<Rightarrow> out = i) (stage_layers st))
       (input_blocks_gaussian m @ output_blocks_gaussian m)"
    by (auto simp: list_all_iff split: option.splits)
  with m show ?thesis by blast
qed

end
